theory Spec2Isabelle
  imports Main
begin

section \<open>Data model\<close>

text \<open>
  The rows of the five tables the views of \<^verbatim>\<open>yatube/posts/views.py\<close> read and write.
  A foreign key is stored as the primary key of the row it points to. Field names follow
  the keyword arguments the views and the tests use (\<^verbatim>\<open>text\<close>, \<^verbatim>\<open>author\<close>,
  \<^verbatim>\<open>group\<close>, \<^verbatim>\<open>image\<close>, \<^verbatim>\<open>pub_date\<close>, \<^verbatim>\<open>slug\<close>, ...), prefixed where the
  plain name is taken.
\<close>

record user =
  user_id :: nat
  username :: string

record group =
  group_id :: nat
  g_title :: string
  g_slug :: string
  g_description :: string

record post =
  post_id :: nat
  p_text :: string
  pub_date :: int
  p_author :: nat
  p_group :: "nat option"
  p_image :: "string option"

record comment =
  comment_id :: nat
  c_text :: string
  c_created :: int
  c_author :: nat
  c_post :: nat

record follow =
  follow_id :: nat
  f_user :: nat
  f_author :: nat

text \<open>
  The database: the rows of each table in storage order, and the next value of the
  primary-key sequence of each table the views insert into.
\<close>

record store =
  users :: "user list"
  groups :: "group list"
  posts :: "post list"
  comments :: "comment list"
  follows :: "follow list"
  post_seq :: nat
  comment_seq :: nat
  follow_seq :: nat

section \<open>Requests and exceptions\<close>

datatype http_method = GET | HEAD | POST | OTHER

text \<open>\<^verbatim>\<open>request.user\<close>: the logged-in user, or Django's \<^verbatim>\<open>AnonymousUser\<close>.\<close>

datatype request_user = AnonymousUser | Authenticated user

text \<open>
  \<^verbatim>\<open>request.GET.get('page')\<close> as \<^verbatim>\<open>int()\<close> reads it in the paginator: the key is
  absent (\<^verbatim>\<open>None\<close>, a \<^verbatim>\<open>TypeError\<close>), its value is no integer literal (a
  \<^verbatim>\<open>ValueError\<close>), or it is the integer given.
\<close>

datatype page_param = Absent | Malformed | Number int

text \<open>An uploaded file: its name, and whether the image field accepts its content.\<close>

record upload =
  up_name :: string
  up_is_image :: bool

record request =
  r_method :: http_method
  r_user :: request_user
  full_path :: string
  vary_values :: "string list"
  GET_page :: page_param
  r_POST :: "(string \<times> string) list"
  r_FILES :: "(string \<times> upload) list"
  now :: int

text \<open>
  \<^verbatim>\<open>full_path\<close> is \<^verbatim>\<open>request.get_full_path()\<close>, the path with its query string;
  \<^verbatim>\<open>vary_values\<close> are the values of the request headers a cached response varies on;
  \<^verbatim>\<open>now\<close> is the server's clock, in seconds, when the request is handled.
\<close>

datatype exn =
    DoesNotExist
  | MultipleObjectsReturned
  | TypeError
  | ValueError
  | IntegrityError
  | PageNotAnInteger
  | EmptyPage
  | ZeroDivisionError
  | Http404

section \<open>Pagination\<close>

text \<open>
  \<^verbatim>\<open>django.core.paginator.Paginator(object_list, per_page)\<close> with the defaults
  \<^verbatim>\<open>orphans=0\<close> and \<^verbatim>\<open>allow_empty_first_page=True\<close>, as \<^verbatim>\<open>get_page_obj\<close> builds it.
\<close>

record 'a paginator =
  pg_object_list :: "'a list"
  per_page :: nat

record 'a page =
  object_list :: "'a list"
  number :: int
  paginator :: "'a paginator"

definition orphans :: int where
  "orphans = 0"

definition allow_empty_first_page :: bool where
  "allow_empty_first_page = True"

definition count :: "'a paginator \<Rightarrow> int" where
  "count p = int (length (pg_object_list p))"

text \<open>\<^verbatim>\<open>ceil(hits / per_page)\<close>; dividing by a page size of zero raises.\<close>

definition num_pages :: "'a paginator \<Rightarrow> exn + int" where
  "num_pages p =
     (if count p = 0 \<and> \<not> allow_empty_first_page then Inr 0
      else let hits = max 1 (count p - orphans) in
        if per_page p = 0 then Inl ZeroDivisionError
        else Inr ((hits + int (per_page p) - 1) div int (per_page p)))"

definition validate_number :: "'a paginator \<Rightarrow> page_param \<Rightarrow> exn + int" where
  "validate_number p n =
     (case n of
        Absent \<Rightarrow> Inl PageNotAnInteger
      | Malformed \<Rightarrow> Inl PageNotAnInteger
      | Number k \<Rightarrow>
          if k < 1 then Inl EmptyPage
          else (case num_pages p of
                  Inl e \<Rightarrow> Inl e
                | Inr np \<Rightarrow>
                    if k > np then
                      (if k = 1 \<and> allow_empty_first_page then Inr k else Inl EmptyPage)
                    else Inr k))"

text \<open>Python's \<^verbatim>\<open>xs[bottom:top]\<close> for indices that are not negative.\<close>

definition slice :: "'a list \<Rightarrow> int \<Rightarrow> int \<Rightarrow> 'a list" where
  "slice xs bottom upper = take (nat (upper - bottom)) (drop (nat bottom) xs)"

definition page_of :: "'a paginator \<Rightarrow> int \<Rightarrow> exn + 'a page" where
  "page_of p n =
     (case validate_number p (Number n) of
        Inl e \<Rightarrow> Inl e
      | Inr k \<Rightarrow>
          let bottom = (k - 1) * int (per_page p);
              upper = bottom + int (per_page p);
              upper' = (if upper + orphans \<ge> count p then count p else upper)
          in Inr \<lparr>object_list = slice (pg_object_list p) bottom upper',
                  number = k, paginator = p\<rparr>)"

text \<open>
  \<^verbatim>\<open>Paginator.get_page\<close>: a page number that is no integer gives the first page, one
  out of range the last page.
\<close>

definition get_page :: "'a paginator \<Rightarrow> page_param \<Rightarrow> exn + 'a page" where
  "get_page p n =
     (case validate_number p n of
        Inr k \<Rightarrow> page_of p k
      | Inl PageNotAnInteger \<Rightarrow> page_of p 1
      | Inl EmptyPage \<Rightarrow>
          (case num_pages p of Inl e \<Rightarrow> Inl e | Inr np \<Rightarrow> page_of p np)
      | Inl e \<Rightarrow> Inl e)"

text \<open>\<^verbatim>\<open>posts/utils.py\<close>.\<close>

definition get_page_obj :: "'a list \<Rightarrow> nat \<Rightarrow> request \<Rightarrow> exn + 'a page" where
  "get_page_obj post_list posts_count request =
     (let paginator = \<lparr>pg_object_list = post_list, per_page = posts_count\<rparr>;
          page_number = GET_page request
      in get_page paginator page_number)"

definition POSTS_COUNT :: nat where
  "POSTS_COUNT = 10"


section \<open>Queries\<close>

text \<open>A call that raises is a value \<open>Inl e\<close>; what follows it runs on \<open>Inr\<close> only.\<close>

definition and_then :: "exn + 'a \<Rightarrow> ('a \<Rightarrow> exn + 'b) \<Rightarrow> exn + 'b" where
  "and_then m f = (case m of Inl e \<Rightarrow> Inl e | Inr v \<Rightarrow> f v)"

text \<open>
  \<^verbatim>\<open>Model.objects.get(...)\<close>: the one row that matches; no row raises
  \<^verbatim>\<open>DoesNotExist\<close>, several raise \<^verbatim>\<open>MultipleObjectsReturned\<close>.
\<close>

definition objects_get :: "'a list \<Rightarrow> ('a \<Rightarrow> bool) \<Rightarrow> exn + 'a" where
  "objects_get rows P =
     (case filter P rows of
        [] \<Rightarrow> Inl DoesNotExist
      | [x] \<Rightarrow> Inr x
      | _ \<Rightarrow> Inl MultipleObjectsReturned)"

text \<open>\<^verbatim>\<open>django.shortcuts.get_object_or_404\<close> turns \<^verbatim>\<open>DoesNotExist\<close> into \<^verbatim>\<open>Http404\<close>.\<close>

definition get_object_or_404 :: "'a list \<Rightarrow> ('a \<Rightarrow> bool) \<Rightarrow> exn + 'a" where
  "get_object_or_404 rows P =
     (case objects_get rows P of
        Inl DoesNotExist \<Rightarrow> Inl Http404
      | Inl e \<Rightarrow> Inl e
      | Inr x \<Rightarrow> Inr x)"

definition order_by_neg_pub_date :: "post list \<Rightarrow> post list" where
  "order_by_neg_pub_date rows = sort_key (\<lambda>p. - pub_date p) rows"

text \<open>
  Modelled from the spec: \<^verbatim>\<open>posts/models.py\<close> is not under \<^verbatim>\<open>src/\<close>, so the default
  ordering of \<^verbatim>\<open>Post\<close> (its \<^verbatim>\<open>Meta.ordering\<close>), which every query without an
  \<^verbatim>\<open>order_by\<close> of its own gets, is taken from the spec: the group, profile and follow
  feeds have the "same ordering" as the site feed, "ordered by \<^verbatim>\<open>created_at\<close>
  descending".
\<close>

definition Post_Meta_ordering :: "post list \<Rightarrow> post list" where
  "Post_Meta_ordering rows = order_by_neg_pub_date rows"

definition Post_objects_all :: "store \<Rightarrow> post list" where
  "Post_objects_all s = Post_Meta_ordering (posts s)"

definition Post_objects_filter :: "store \<Rightarrow> (post \<Rightarrow> bool) \<Rightarrow> post list" where
  "Post_objects_filter s P = Post_Meta_ordering (filter P (posts s))"

text \<open>
  \<^verbatim>\<open>Post.objects.filter(author__following__user=user)\<close>: the join of the posts with the
  follow rows of their authors, so a post comes once for every follow row of \<^verbatim>\<open>user\<close>
  on its author. (The test \<^verbatim>\<open>test_post_appearing\<close> fixes the direction of
  \<^verbatim>\<open>following\<close>: the post of a followed author is in the feed of the follower.)
\<close>

definition Post_objects_filter_following :: "store \<Rightarrow> nat \<Rightarrow> post list" where
  "Post_objects_filter_following s uid =
     Post_Meta_ordering
       (concat (map (\<lambda>p. map (\<lambda>f. p)
                  (filter (\<lambda>f. f_author f = p_author p \<and> f_user f = uid) (follows s)))
                (posts s)))"

text \<open>
  A lookup on a foreign key to \<^verbatim>\<open>User\<close> with \<^verbatim>\<open>request.user\<close> as its value: Django
  raises \<^verbatim>\<open>TypeError\<close> while it builds the query when the value is the
  \<^verbatim>\<open>AnonymousUser\<close>, which is no model instance and has no primary key.
\<close>

definition user_lookup_value :: "request_user \<Rightarrow> exn + nat" where
  "user_lookup_value ru =
     (case ru of AnonymousUser \<Rightarrow> Inl TypeError | Authenticated u \<Rightarrow> Inr (user_id u))"

definition Follow_objects_filter :: "store \<Rightarrow> request_user \<Rightarrow> user \<Rightarrow> exn + follow list" where
  "Follow_objects_filter s ru author =
     and_then (user_lookup_value ru) (\<lambda>uid.
       Inr (filter (\<lambda>f. f_user f = uid \<and> f_author f = user_id author) (follows s)))"

text \<open>
  Assigning \<^verbatim>\<open>request.user\<close> to a foreign key of a new row: the \<^verbatim>\<open>AnonymousUser\<close>
  is refused with \<^verbatim>\<open>ValueError\<close>.
\<close>

definition user_instance :: "request_user \<Rightarrow> exn + user" where
  "user_instance ru =
     (case ru of AnonymousUser \<Rightarrow> Inl ValueError | Authenticated u \<Rightarrow> Inr u)"

text \<open>
  Modelled from the spec: \<^verbatim>\<open>posts/models.py\<close> is not under \<^verbatim>\<open>src/\<close>, so the
  constraints of the \<^verbatim>\<open>Follow\<close> table are the spec's: "pair unique -- a user cannot
  follow the same author twice, and a user cannot follow themself". The database accepts
  a new row when this holds of it.
\<close>

definition Follow_constraints :: "follow list \<Rightarrow> follow \<Rightarrow> bool" where
  "Follow_constraints rows f =
     (filter (\<lambda>g. f_user g = f_user f \<and> f_author g = f_author f) rows = []
      \<and> f_user f \<noteq> f_author f)"

text \<open>
  \<^verbatim>\<open>Follow(user=..., author=...).save()\<close>: the insert of a row the constraints refuse
  raises \<^verbatim>\<open>IntegrityError\<close> and writes nothing.
\<close>

definition Follow_save :: "store \<Rightarrow> nat \<Rightarrow> nat \<Rightarrow> exn + store" where
  "Follow_save s uid aid =
     (let f = \<lparr>follow_id = follow_seq s, f_user = uid, f_author = aid\<rparr> in
      if Follow_constraints (follows s) f
      then Inr (s\<lparr>follows := follows s @ [f], follow_seq := Suc (follow_seq s)\<rparr>)
      else Inl IntegrityError)"

text \<open>\<^verbatim>\<open>QuerySet.delete()\<close> on follow rows a query has selected.\<close>

definition Follow_delete :: "store \<Rightarrow> follow list \<Rightarrow> store" where
  "Follow_delete s rows = s\<lparr>follows := filter (\<lambda>f. f \<notin> set rows) (follows s)\<rparr>"

text \<open>
  Modelled from the spec: \<^verbatim>\<open>posts/models.py\<close> is not under \<^verbatim>\<open>src/\<close>; the time of
  creation of a post or comment is "set once", when the row is created. Saving a new row
  at time \<open>t\<close> takes its primary key from the sequence of the table.
\<close>

definition Post_insert :: "store \<Rightarrow> int \<Rightarrow> post \<Rightarrow> store" where
  "Post_insert s t p =
     s\<lparr>posts := posts s @ [p\<lparr>post_id := post_seq s, pub_date := t\<rparr>],
       post_seq := Suc (post_seq s)\<rparr>"

definition Post_update :: "store \<Rightarrow> post \<Rightarrow> store" where
  "Post_update s p = s\<lparr>posts := map (\<lambda>q. if post_id q = post_id p then p else q) (posts s)\<rparr>"

definition Comment_insert :: "store \<Rightarrow> int \<Rightarrow> comment \<Rightarrow> store" where
  "Comment_insert s t c =
     s\<lparr>comments := comments s @ [c\<lparr>comment_id := comment_seq s, c_created := t\<rparr>],
       comment_seq := Suc (comment_seq s)\<rparr>"

text \<open>
  Modelled from the spec: \<^verbatim>\<open>posts/models.py\<close> is not under \<^verbatim>\<open>src/\<close>;
  \<^verbatim>\<open>Post.delete()\<close>, which the cache test calls, follows the spec's "deleting a Post
  cascades to delete its Comments".
\<close>

definition Post_delete :: "nat \<Rightarrow> store \<Rightarrow> store" where
  "Post_delete pid s =
     s\<lparr>posts := filter (\<lambda>p. post_id p \<noteq> pid) (posts s),
       comments := filter (\<lambda>c. c_post c \<noteq> pid) (comments s)\<rparr>"

section \<open>Forms\<close>

text \<open>
  \<^verbatim>\<open>PostForm\<close> and \<^verbatim>\<open>CommentForm\<close> are declared in \<^verbatim>\<open>posts/forms.py\<close>, which is
  not under \<^verbatim>\<open>src/\<close>; what the views pass to them and ask of them is. The forms are
  modelled from the spec, which gives a post a required text, an optional group and an
  optional image, and a comment a required text, empty text being a
  \<^verbatim>\<open>ValidationError\<close>; the tests post the fields \<^verbatim>\<open>text\<close>, \<^verbatim>\<open>group\<close> and
  \<^verbatim>\<open>image\<close> and find the image under \<^verbatim>\<open>posts/\<close>. The fields clean their input as
  Django's form fields do: the text is stripped of the white space around it, the group
  is empty or the primary key of a group, the image is an upload the image field
  accepts. Of the literals naming a primary key only runs of ASCII digits are read,
  white space is ASCII white space, and the check box that clears an image is left out.
\<close>

record post_form =
  pf_data :: "(string \<times> string) list option"
  pf_files :: "(string \<times> upload) list option"
  pf_instance :: "post option"

record comment_form =
  cf_data :: "(string \<times> string) list option"

text \<open>Python's \<^verbatim>\<open>x or None\<close> on a dictionary.\<close>

definition or_None :: "'a list \<Rightarrow> 'a list option" where
  "or_None xs = (if xs = [] then None else Some xs)"

text \<open>\<^verbatim>\<open>QueryDict.get\<close>: the last value given for the key.\<close>

definition QueryDict_get :: "(string \<times> 'v) list \<Rightarrow> string \<Rightarrow> 'v option" where
  "QueryDict_get d k = map_of (rev d) k"

definition is_space :: "char \<Rightarrow> bool" where
  "is_space c = ((of_char c :: nat) \<in> {9, 10, 11, 12, 13, 28, 29, 30, 31, 32})"

definition strip :: "string \<Rightarrow> string" where
  "strip t = rev (dropWhile is_space (rev (dropWhile is_space t)))"

definition is_digit :: "char \<Rightarrow> bool" where
  "is_digit c = (48 \<le> (of_char c :: nat) \<and> (of_char c :: nat) \<le> 57)"

definition parse_pk :: "string \<Rightarrow> nat option" where
  "parse_pk t =
     (if t \<noteq> [] \<and> list_all is_digit t
      then Some (foldl (\<lambda>n c. 10 * n + (of_char c - 48)) 0 t)
      else None)"

text \<open>
  Modelled from the spec: the fields of the forms (\<^verbatim>\<open>posts/forms.py\<close> is not under
  \<^verbatim>\<open>src/\<close>). The required text of a post or comment; \<open>None\<close> is the
  \<^verbatim>\<open>ValidationError\<close> of an empty text.
\<close>

definition clean_text :: "(string \<times> string) list \<Rightarrow> string option" where
  "clean_text d =
     (let v = (case QueryDict_get d ''text'' of None \<Rightarrow> [] | Some t \<Rightarrow> strip t)
      in if v = [] then None else Some v)"

text \<open>
  Modelled from the spec: the optional group of a post (\<^verbatim>\<open>posts/forms.py\<close> is not
  under \<^verbatim>\<open>src/\<close>); \<open>None\<close> is the error of a choice that is no group.
\<close>

definition clean_group :: "store \<Rightarrow> (string \<times> string) list \<Rightarrow> nat option option" where
  "clean_group s d =
     (case QueryDict_get d ''group'' of
        None \<Rightarrow> Some None
      | Some t \<Rightarrow>
          if t = [] then Some None
          else (case parse_pk t of
                  None \<Rightarrow> None
                | Some k \<Rightarrow>
                    (case objects_get (groups s) (\<lambda>g. group_id g = k) of
                       Inl e \<Rightarrow> None
                     | Inr g \<Rightarrow> Some (Some (group_id g)))))"

text \<open>
  Modelled from the spec: the optional image of a post (\<^verbatim>\<open>posts/forms.py\<close> is not
  under \<^verbatim>\<open>src/\<close>): \<open>Some None\<close> when nothing is uploaded (a new post has no image,
  an edited one keeps its own), \<open>Some (Some path)\<close> for an accepted upload, \<open>None\<close> for
  the error of one that is no image.
\<close>

definition clean_image :: "(string \<times> upload) list \<Rightarrow> string option option" where
  "clean_image fs =
     (case QueryDict_get fs ''image'' of
        None \<Rightarrow> Some None
      | Some u \<Rightarrow> if up_is_image u then Some (Some (''posts/'' @ up_name u)) else None)"

definition form_input :: "'a list option \<Rightarrow> 'a list" where
  "form_input d = (case d of None \<Rightarrow> [] | Some xs \<Rightarrow> xs)"

text \<open>
  Django's \<^verbatim>\<open>is_bound\<close>: a form is bound when it was given data or files. Only a
  bound form can be valid.
\<close>

definition PostForm_is_bound :: "post_form \<Rightarrow> bool" where
  "PostForm_is_bound form = (\<not> (pf_data form = None \<and> pf_files form = None))"

text \<open>
  Modelled from the spec: \<^verbatim>\<open>PostForm.is_valid()\<close> (\<^verbatim>\<open>posts/forms.py\<close> is not under
  \<^verbatim>\<open>src/\<close>), with the three fields above.
\<close>

definition PostForm_is_valid :: "store \<Rightarrow> post_form \<Rightarrow> bool" where
  "PostForm_is_valid s form =
     (PostForm_is_bound form
      \<and> clean_text (form_input (pf_data form)) \<noteq> None
      \<and> clean_group s (form_input (pf_data form)) \<noteq> None
      \<and> clean_image (form_input (pf_files form)) \<noteq> None)"

text \<open>
  Modelled from the spec: \<^verbatim>\<open>form.save(commit=False)\<close> of a valid \<^verbatim>\<open>PostForm\<close>
  (\<^verbatim>\<open>posts/forms.py\<close> is not under \<^verbatim>\<open>src/\<close>): the instance (a new post when the
  form has none) with the cleaned fields written into it.
\<close>

definition PostForm_instance :: "store \<Rightarrow> post_form \<Rightarrow> post" where
  "PostForm_instance s form =
     (let base = (case pf_instance form of
                    Some p \<Rightarrow> p
                  | None \<Rightarrow> \<lparr>post_id = 0, p_text = [], pub_date = 0, p_author = 0,
                              p_group = None, p_image = None\<rparr>);
          t = (case clean_text (form_input (pf_data form)) of None \<Rightarrow> [] | Some v \<Rightarrow> v);
          g = (case clean_group s (form_input (pf_data form)) of None \<Rightarrow> None | Some v \<Rightarrow> v);
          i = (case clean_image (form_input (pf_files form)) of
                 Some (Some path) \<Rightarrow> Some path
               | _ \<Rightarrow> p_image base)
      in base\<lparr>p_text := t, p_group := g, p_image := i\<rparr>)"

text \<open>
  Modelled from the spec: \<^verbatim>\<open>CommentForm.is_valid()\<close> and the text of the comment that
  \<^verbatim>\<open>form.save(commit=False)\<close> builds (\<^verbatim>\<open>posts/forms.py\<close> is not under
  \<^verbatim>\<open>src/\<close>): "fails with \<^verbatim>\<open>ValidationError\<close> on empty text".
\<close>

definition CommentForm_is_valid :: "comment_form \<Rightarrow> bool" where
  "CommentForm_is_valid form =
     (cf_data form \<noteq> None \<and> clean_text (form_input (cf_data form)) \<noteq> None)"

definition CommentForm_text :: "comment_form \<Rightarrow> string" where
  "CommentForm_text form =
     (case clean_text (form_input (cf_data form)) of None \<Rightarrow> [] | Some v \<Rightarrow> v)"

section \<open>Responses\<close>

text \<open>
  The targets of \<^verbatim>\<open>redirect\<close>: the login page with the requested path as its
  \<^verbatim>\<open>next\<close> parameter, and the routes \<^verbatim>\<open>posts:profile\<close> and
  \<^verbatim>\<open>posts:post_detail\<close> with their argument.
\<close>

datatype url = LoginUrl string | ProfileUrl string | PostDetailUrl nat

text \<open>
  The two page titles of the views: the literal of \<^verbatim>\<open>index\<close> and
  \<^verbatim>\<open>follow_index\<close>, and the one of \<^verbatim>\<open>group_posts\<close>, which names the group.
\<close>

datatype title = Latest_updates | Group_records group

datatype ctx_val =
    CTitle title
  | CPage "post page"
  | CGroup group
  | CUser user
  | CPosts "post list"
  | CBool bool
  | CPost post
  | CComments "comment list"
  | CPostForm post_form
  | CCommentForm comment_form
  | CNat nat

type_synonym template_context = "(string \<times> ctx_val) list"

text \<open>
  What the client gets: a rendered template with its context (status 200), a redirect
  (302), the 404 page Django serves for \<^verbatim>\<open>Http404\<close>, or the server error (500) it
  serves when a view raises anything else.
\<close>

datatype response =
    Rendered string template_context
  | Redirect url
  | NotFoundPage
  | ServerErrorPage exn

definition render :: "request \<Rightarrow> string \<Rightarrow> template_context \<Rightarrow> response" where
  "render request template_name ctx = Rendered template_name ctx"

definition redirect :: "url \<Rightarrow> response" where
  "redirect to = Redirect to"

text \<open>
  A view maps a request and the store to the response and the store it leaves, or
  raises. Django's handler runs the view; a view that raises has written nothing.
\<close>

type_synonym view = "request \<Rightarrow> store \<Rightarrow> exn + response \<times> store"

definition get_response :: "(store \<Rightarrow> exn + response \<times> store) \<Rightarrow> store \<Rightarrow> response \<times> store" where
  "get_response run s =
     (case run s of
        Inr rs \<Rightarrow> rs
      | Inl Http404 \<Rightarrow> (NotFoundPage, s)
      | Inl e \<Rightarrow> (ServerErrorPage e, s))"

definition is_authenticated :: "request_user \<Rightarrow> bool" where
  "is_authenticated ru = (case ru of AnonymousUser \<Rightarrow> False | Authenticated u \<Rightarrow> True)"

text \<open>
  \<^verbatim>\<open>django.contrib.auth.decorators.login_required\<close>: an anonymous request is answered
  with a redirect to the login page, and the view does not run.
\<close>

definition login_required :: "view \<Rightarrow> view" where
  "login_required view_func request s =
     (if is_authenticated (r_user request) then view_func request s
      else Inr (redirect (LoginUrl (full_path request)), s))"

section \<open>The views of \<^verbatim>\<open>posts/views.py\<close>\<close>

text \<open>
  Each view is written as in the source, statement by statement; a decorated view is
  the decorator applied to the function. \<^verbatim>\<open>group.posts.all()\<close> is the query for the
  posts whose group is \<^verbatim>\<open>group\<close>.
\<close>

definition group_posts :: "request \<Rightarrow> string \<Rightarrow> store \<Rightarrow> exn + response \<times> store" where
  "group_posts request slug s =
     and_then (get_object_or_404 (groups s) (\<lambda>g. g_slug g = slug)) (\<lambda>group.
     let post_list = Post_objects_filter s (\<lambda>p. p_group p = Some (group_id group)) in
     and_then (get_page_obj post_list POSTS_COUNT request) (\<lambda>page_obj.
     let ctx = [(''title'', CTitle (Group_records group)),
                (''group'', CGroup group),
                (''page_obj'', CPage page_obj)]
     in Inr (render request ''posts/group_list.html'' ctx, s)))"

definition profile :: "request \<Rightarrow> string \<Rightarrow> store \<Rightarrow> exn + response \<times> store" where
  "profile request name s =
     and_then (objects_get (users s) (\<lambda>u. username u = name)) (\<lambda>author.
     let post_list = Post_objects_filter s (\<lambda>p. p_author p = user_id author) in
     and_then (get_page_obj post_list POSTS_COUNT request) (\<lambda>page_obj.
     and_then (Follow_objects_filter s (r_user request) author) (\<lambda>follow.
     let following = (if follow \<noteq> [] then True else False);
         ctx = [(''author'', CUser author),
                (''post_list'', CPosts post_list),
                (''page_obj'', CPage page_obj),
                (''following'', CBool following)]
     in Inr (render request ''posts/profile.html'' ctx, s))))"

text \<open>
  The comments of \<^verbatim>\<open>post_detail\<close> come in the order of the table: the default
  ordering of \<^verbatim>\<open>Comment\<close> is declared in \<^verbatim>\<open>posts/models.py\<close>, and nothing below
  depends on it.
\<close>

definition post_detail :: "request \<Rightarrow> nat \<Rightarrow> store \<Rightarrow> exn + response \<times> store" where
  "post_detail request pid s =
     and_then (objects_get (posts s) (\<lambda>p. post_id p = pid)) (\<lambda>post.
     let comment_list = filter (\<lambda>c. c_post c = post_id post) (comments s);
         form = \<lparr>cf_data = None\<rparr>;
         ctx = [(''post'', CPost post),
                (''comments'', CComments comment_list),
                (''form'', CCommentForm form)]
     in Inr (render request ''posts/post_detail.html'' ctx, s))"

text \<open>
  In \<^verbatim>\<open>post_create\<close> and \<^verbatim>\<open>post_edit\<close> the function ends after the last \<^verbatim>\<open>if\<close>;
  a view that returns \<^verbatim>\<open>None\<close> makes Django raise \<^verbatim>\<open>ValueError\<close>.
\<close>

definition post_create :: "request \<Rightarrow> store \<Rightarrow> exn + response \<times> store" where
  "post_create = login_required (\<lambda>request s.
     let form = \<lparr>pf_data = or_None (r_POST request), pf_files = or_None (r_FILES request),
                 pf_instance = None\<rparr>
     in if r_method request \<noteq> POST \<or> \<not> PostForm_is_valid s form then
          Inr (render request ''posts/create_post.html'' [(''form'', CPostForm form)], s)
        else if PostForm_is_valid s form then
          and_then (user_instance (r_user request)) (\<lambda>u.
          let post = (PostForm_instance s form)\<lparr>p_author := user_id u\<rparr>
          in Inr (redirect (ProfileUrl (username u)), Post_insert s (now request) post))
        else Inl ValueError)"

text \<open>
  \<^verbatim>\<open>post.author == request.user\<close>: two users are equal when their primary keys are;
  the \<^verbatim>\<open>AnonymousUser\<close> equals no user.
\<close>

definition author_is :: "post \<Rightarrow> request_user \<Rightarrow> bool" where
  "author_is post ru =
     (case ru of AnonymousUser \<Rightarrow> False | Authenticated u \<Rightarrow> p_author post = user_id u)"

definition post_edit :: "request \<Rightarrow> nat \<Rightarrow> store \<Rightarrow> exn + response \<times> store" where
  "post_edit request pid = login_required (\<lambda>request s.
     and_then (objects_get (posts s) (\<lambda>p. post_id p = pid)) (\<lambda>post.
     let form = \<lparr>pf_data = or_None (r_POST request), pf_files = or_None (r_FILES request),
                 pf_instance = Some post\<rparr>
     in if \<not> author_is post (r_user request) then
          Inr (redirect (PostDetailUrl pid), s)
        else if r_method request \<noteq> POST \<or> \<not> PostForm_is_valid s form then
          Inr (render request ''posts/create_post.html''
                 [(''form'', CPostForm form), (''post_id'', CNat pid), (''is_edit'', CBool True)],
               s)
        else if PostForm_is_valid s form then
          Inr (redirect (PostDetailUrl pid), Post_update s (PostForm_instance s form))
        else Inl ValueError)) request"

definition add_comment :: "request \<Rightarrow> nat \<Rightarrow> store \<Rightarrow> exn + response \<times> store" where
  "add_comment request pid = login_required (\<lambda>request s.
     and_then (objects_get (posts s) (\<lambda>p. post_id p = pid)) (\<lambda>post.
     let form = \<lparr>cf_data = or_None (r_POST request)\<rparr>
     in if CommentForm_is_valid form then
          and_then (user_instance (r_user request)) (\<lambda>u.
          let comment = \<lparr>comment_id = 0, c_text = CommentForm_text form, c_created = 0,
                         c_author = user_id u, c_post = post_id post\<rparr>
          in Inr (redirect (PostDetailUrl pid), Comment_insert s (now request) comment))
        else Inr (redirect (PostDetailUrl pid), s))) request"

definition follow_index :: "request \<Rightarrow> store \<Rightarrow> exn + response \<times> store" where
  "follow_index = login_required (\<lambda>request s.
     and_then (user_lookup_value (r_user request)) (\<lambda>uid.
     let post_list = Post_objects_filter_following s uid in
     and_then (get_page_obj post_list POSTS_COUNT request) (\<lambda>page_obj.
     let ctx = [(''title'', CTitle Latest_updates), (''page_obj'', CPage page_obj)]
     in Inr (render request ''posts/follow.html'' ctx, s))))"

definition profile_follow :: "request \<Rightarrow> string \<Rightarrow> store \<Rightarrow> exn + response \<times> store" where
  "profile_follow request name = login_required (\<lambda>request s.
     and_then (objects_get (users s) (\<lambda>u. username u = name)) (\<lambda>author.
     and_then (user_instance (r_user request)) (\<lambda>u.
     and_then (Follow_save s (user_id u) (user_id author)) (\<lambda>s'.
     Inr (redirect (ProfileUrl name), s'))))) request"

definition profile_unfollow :: "request \<Rightarrow> string \<Rightarrow> store \<Rightarrow> exn + response \<times> store" where
  "profile_unfollow request name = login_required (\<lambda>request s.
     and_then (objects_get (users s) (\<lambda>u. username u = name)) (\<lambda>author.
     and_then (Follow_objects_filter s (r_user request) author) (\<lambda>follow.
     Inr (redirect (ProfileUrl name), Follow_delete s follow)))) request"

section \<open>The page cache\<close>

text \<open>
  \<^verbatim>\<open>django.views.decorators.cache.cache_page(timeout, key_prefix)\<close>. Django keys the
  per-view cache by the URL of the request (each URL of a view is cached on its own),
  together with the prefix, the method and the values of the headers the response
  varies on. Only \<^verbatim>\<open>GET\<close> and \<^verbatim>\<open>HEAD\<close> requests are looked up and stored, and only a
  response with status 200 is stored; an entry is gone once its time is reached. A cache
  is the list of its entries: key, response, and the time the entry expires. (Django
  also leaves out of the cache a response that is private or sets a cookie for a client
  that sent none; the views here build no such response.)
\<close>

type_synonym cache_key = "string \<times> http_method \<times> string \<times> string list"

type_synonym cache = "(cache_key \<times> response \<times> int) list"

definition cache_key :: "string \<Rightarrow> http_method \<Rightarrow> request \<Rightarrow> cache_key" where
  "cache_key key_prefix m request = (key_prefix, m, full_path request, vary_values request)"

definition cache_get :: "cache \<Rightarrow> cache_key \<Rightarrow> int \<Rightarrow> response option" where
  "cache_get c k t =
     (case map_of c k of
        None \<Rightarrow> None
      | Some (resp, expires) \<Rightarrow> if expires \<le> t then None else Some resp)"

definition cache_set :: "cache \<Rightarrow> cache_key \<Rightarrow> response \<Rightarrow> int \<Rightarrow> int \<Rightarrow> cache" where
  "cache_set c k resp timeout t = (k, resp, t + timeout) # filter (\<lambda>e. fst e \<noteq> k) c"

definition cache_clear :: "cache \<Rightarrow> cache" where
  "cache_clear c = []"

definition status_code :: "response \<Rightarrow> nat" where
  "status_code resp =
     (case resp of
        Rendered t ctx \<Rightarrow> 200
      | Redirect to \<Rightarrow> 302
      | NotFoundPage \<Rightarrow> 404
      | ServerErrorPage e \<Rightarrow> 500)"

definition cache_page ::
  "int \<Rightarrow> string \<Rightarrow> view \<Rightarrow> request \<Rightarrow> cache \<times> store \<Rightarrow> exn + response \<times> cache \<times> store" where
  "cache_page timeout key_prefix view_func request cs =
     (let c = fst cs; s = snd cs in
      if r_method request \<notin> {GET, HEAD} then
        and_then (view_func request s) (\<lambda>rs. Inr (fst rs, c, snd rs))
      else
        let hit = (case cache_get c (cache_key key_prefix GET request) (now request) of
                     Some resp \<Rightarrow> Some resp
                   | None \<Rightarrow>
                       if r_method request = HEAD
                       then cache_get c (cache_key key_prefix HEAD request) (now request)
                       else None)
        in case hit of
             Some resp \<Rightarrow> Inr (resp, c, s)
           | None \<Rightarrow>
               and_then (view_func request s) (\<lambda>rs.
                 if status_code (fst rs) = 200 \<and> timeout \<noteq> 0 then
                   Inr (fst rs,
                        cache_set c (cache_key key_prefix (r_method request) request)
                          (fst rs) timeout (now request),
                        snd rs)
                 else Inr (fst rs, c, snd rs)))"

text \<open>The function \<^verbatim>\<open>index\<close> as written, and \<^verbatim>\<open>index\<close> as decorated.\<close>

definition index_body :: "request \<Rightarrow> store \<Rightarrow> exn + response \<times> store" where
  "index_body request s =
     (let post_list = order_by_neg_pub_date (Post_objects_all s) in
      and_then (get_page_obj post_list POSTS_COUNT request) (\<lambda>page_obj.
      let ctx = [(''title'', CTitle Latest_updates), (''page_obj'', CPage page_obj)]
      in Inr (render request ''posts/index.html'' ctx, s)))"

definition index :: "request \<Rightarrow> cache \<times> store \<Rightarrow> exn + response \<times> cache \<times> store" where
  "index = cache_page 20 ''index_page'' index_body"

section \<open>Reading a response\<close>

text \<open>The posts of a feed page are those of the \<^verbatim>\<open>page_obj\<close> in its context.\<close>

definition page_of_response :: "response \<Rightarrow> post page option" where
  "page_of_response resp =
     (case resp of
        Rendered t ctx \<Rightarrow> (case map_of ctx ''page_obj'' of Some (CPage pg) \<Rightarrow> Some pg | _ \<Rightarrow> None)
      | _ \<Rightarrow> None)"

definition response_posts :: "response \<Rightarrow> post list" where
  "response_posts resp =
     (case page_of_response resp of None \<Rightarrow> [] | Some pg \<Rightarrow> object_list pg)"

definition newest_first :: "post list \<Rightarrow> bool" where
  "newest_first ps = sorted_wrt (\<lambda>p q. pub_date q \<le> pub_date p) ps"

text \<open>A rendered feed page whose posts are ordered by \<^verbatim>\<open>pub_date\<close>, newest first.\<close>

definition newest_first_feed :: "response \<Rightarrow> bool" where
  "newest_first_feed resp =
     (case page_of_response resp of None \<Rightarrow> False | Some pg \<Rightarrow> newest_first (object_list pg))"

definition cache_newest_first :: "cache \<Rightarrow> bool" where
  "cache_newest_first c = list_all (\<lambda>e. newest_first_feed (fst (snd e))) c"

text \<open>The \<^verbatim>\<open>following\<close> flag of a rendered profile page.\<close>

definition following_flag :: "response \<Rightarrow> bool option" where
  "following_flag resp =
     (case resp of
        Rendered t ctx \<Rightarrow> (case map_of ctx ''following'' of Some (CBool b) \<Rightarrow> Some b | _ \<Rightarrow> None)
      | _ \<Rightarrow> None)"

text \<open>The follow rows of user \<open>uid\<close> on author \<open>aid\<close>.\<close>

definition follow_rows :: "store \<Rightarrow> nat \<Rightarrow> nat \<Rightarrow> follow list" where
  "follow_rows s uid aid = filter (\<lambda>f. f_user f = uid \<and> f_author f = aid) (follows s)"

text \<open>
  Inline form feedback: a rendered page whose comment form is bound to the submitted
  data and not valid, which is when the template shows the errors of the form.
\<close>

definition shows_form_errors :: "response \<Rightarrow> bool" where
  "shows_form_errors resp =
     (case resp of
        Rendered t ctx \<Rightarrow>
          (case map_of ctx ''form'' of
             Some (CCommentForm f) \<Rightarrow> cf_data f \<noteq> None \<and> \<not> CommentForm_is_valid f
           | _ \<Rightarrow> False)
      | _ \<Rightarrow> False)"

text \<open>\<^verbatim>\<open>Post.objects.count()\<close> and \<^verbatim>\<open>Comment.objects.count()\<close>.\<close>

definition Post_count :: "store \<Rightarrow> nat" where
  "Post_count s = length (posts s)"

definition Comment_count :: "store \<Rightarrow> nat" where
  "Comment_count s = length (comments s)"

text \<open>The submitted form has no text: the field is missing, empty or blank.\<close>

definition empty_text :: "request \<Rightarrow> bool" where
  "empty_text request =
     (case QueryDict_get (r_POST request) ''text'' of None \<Rightarrow> True | Some t \<Rightarrow> strip t = [])"

section \<open>Fixtures\<close>

text \<open>The users, the group and posts of the kind the tests set up, and two clients.\<close>

definition auth_user :: user where
  "auth_user = \<lparr>user_id = 1, username = ''auth''\<rparr>"

definition followed_user :: user where
  "followed_user = \<lparr>user_id = 2, username = ''followed''\<rparr>"

definition test_group :: group where
  "test_group = \<lparr>group_id = 1, g_title = ''Test group'', g_slug = ''testslug'',
                  g_description = ''Test description''\<rparr>"

definition post1 :: post where
  "post1 = \<lparr>post_id = 1, p_text = ''Text'', pub_date = 100, p_author = 1,
             p_group = Some 1, p_image = None\<rparr>"

definition post2 :: post where
  "post2 = \<lparr>post_id = 2, p_text = ''Following'', pub_date = 300, p_author = 2,
             p_group = Some 1, p_image = None\<rparr>"

definition post3 :: post where
  "post3 = \<lparr>post_id = 3, p_text = ''Cache check'', pub_date = 200, p_author = 1,
             p_group = Some 1, p_image = None\<rparr>"

definition test_store :: store where
  "test_store = \<lparr>users = [auth_user, followed_user], groups = [test_group],
                   posts = [post1, post2, post3], comments = [], follows = [],
                   post_seq = 4, comment_seq = 1, follow_seq = 1\<rparr>"

definition guest_request :: request where
  "guest_request = \<lparr>r_method = GET, r_user = AnonymousUser, full_path = ''/'',
                      vary_values = [], GET_page = Absent, r_POST = [], r_FILES = [],
                      now = 1000\<rparr>"

definition auth_request :: request where
  "auth_request = guest_request\<lparr>r_user := Authenticated auth_user\<rparr>"

text \<open>The first page of the site feed with the posts \<open>ps\<close> (no more than ten) on it.\<close>

definition index_page :: "post list \<Rightarrow> response" where
  "index_page ps =
     Rendered ''posts/index.html''
       [(''title'', CTitle Latest_updates),
        (''page_obj'', CPage \<lparr>object_list = ps, number = 1,
            paginator = \<lparr>pg_object_list = ps, per_page = 10\<rparr>\<rparr>)]"

section \<open>Pagination: results\<close>

lemma num_pages_pos:
  "0 < per_page p \<Longrightarrow> \<exists>np. num_pages p = Inr np \<and> 1 \<le> np"
proof -
  assume pp: "0 < per_page p"
  define h where "h = max 1 (count p - orphans)"
  have h1: "1 \<le> h" by (simp add: h_def)
  have "int (per_page p) \<le> h + int (per_page p) - 1" using h1 by simp
  then have "0 < (h + int (per_page p) - 1) div int (per_page p)"
    using pp by (subst pos_imp_zdiv_pos_iff) simp_all
  then have "1 \<le> (h + int (per_page p) - 1) div int (per_page p)"
    by linarith
  then show ?thesis
    using pp by (simp add: num_pages_def h_def allow_empty_first_page_def Let_def)
qed

lemma get_page_obj_12_page1:
  assumes "length post_list = 12" and "GET_page request = Number 1"
  shows "get_page_obj post_list POSTS_COUNT request =
           Inr \<lparr>object_list = take 10 post_list, number = 1,
                paginator = \<lparr>pg_object_list = post_list, per_page = 10\<rparr>\<rparr>"
  using assms
  by (simp add: get_page_obj_def get_page_def validate_number_def num_pages_def
      page_of_def slice_def count_def orphans_def allow_empty_first_page_def
      POSTS_COUNT_def Let_def)

lemma get_page_obj_12_page2:
  assumes "length post_list = 12" and "GET_page request = Number 2"
  shows "get_page_obj post_list POSTS_COUNT request =
           Inr \<lparr>object_list = drop 10 post_list, number = 2,
                paginator = \<lparr>pg_object_list = post_list, per_page = 10\<rparr>\<rparr>"
  using assms
  by (simp add: get_page_obj_def get_page_def validate_number_def num_pages_def
      page_of_def slice_def count_def orphans_def allow_empty_first_page_def
      POSTS_COUNT_def Let_def)

lemma page_of_ok:
  assumes "num_pages p = Inr np" and "1 \<le> k" and "k \<le> np"
  shows "\<exists>b u. page_of p k = Inr \<lparr>object_list = slice (pg_object_list p) b u,
                                  number = k, paginator = p\<rparr>"
  using assms by (auto simp: page_of_def validate_number_def Let_def)

lemma get_page_ok:
  assumes "0 < per_page p"
  shows "\<exists>b u k. get_page p n = Inr \<lparr>object_list = slice (pg_object_list p) b u,
                                    number = k, paginator = p\<rparr>"
proof -
  obtain np where np: "num_pages p = Inr np" "1 \<le> np"
    using num_pages_pos [OF assms] by blast
  have one: "\<exists>b u. page_of p 1 = Inr \<lparr>object_list = slice (pg_object_list p) b u,
                                  number = 1, paginator = p\<rparr>"
    using page_of_ok [OF np(1), of 1] np(2) by simp
  have last: "\<exists>b u. page_of p np = Inr \<lparr>object_list = slice (pg_object_list p) b u,
                                  number = np, paginator = p\<rparr>"
    using page_of_ok [OF np(1), of np] np(2) by simp
  show ?thesis
  proof (cases n)
    case Absent
    then show ?thesis using one by (auto simp: get_page_def validate_number_def)
  next
    case Malformed
    then show ?thesis using one by (auto simp: get_page_def validate_number_def)
  next
    case (Number k)
    show ?thesis
    proof (cases "1 \<le> k \<and> k \<le> np")
      case True
      then have "validate_number p n = Inr k"
        using Number np by (simp add: validate_number_def)
      moreover have "\<exists>b u. page_of p k = Inr \<lparr>object_list = slice (pg_object_list p) b u,
                                  number = k, paginator = p\<rparr>"
        using page_of_ok [OF np(1), of k] True by simp
      ultimately show ?thesis by (auto simp: get_page_def)
    next
      case False
      then have "validate_number p n = Inl EmptyPage"
        using Number np by (auto simp: validate_number_def)
      then show ?thesis using last np by (auto simp: get_page_def)
    qed
  qed
qed

lemma get_page_obj_ok:
  "\<exists>b u k. get_page_obj xs POSTS_COUNT request =
      Inr \<lparr>object_list = slice xs b u, number = k,
           paginator = \<lparr>pg_object_list = xs, per_page = POSTS_COUNT\<rparr>\<rparr>"
  using get_page_ok [of "\<lparr>pg_object_list = xs, per_page = POSTS_COUNT\<rparr>" "GET_page request"]
  by (simp add: get_page_obj_def POSTS_COUNT_def)

text \<open>
  Claim C2. With exactly 12 posts and the page size 10 of the views, \<^verbatim>\<open>get_page_obj\<close>
  returns a page of 10 items for \<^verbatim>\<open>page=1\<close> and a page of exactly 2 items (so not 3)
  for \<^verbatim>\<open>page=2\<close>.
\<close>

theorem get_page_obj_twelve_posts:
  assumes "length post_list = 12"
  shows "(\<exists>pg. get_page_obj post_list POSTS_COUNT (request\<lparr>GET_page := Number 1\<rparr>) = Inr pg
            \<and> length (object_list pg) = 10)
       \<and> (\<exists>pg. get_page_obj post_list POSTS_COUNT (request\<lparr>GET_page := Number 2\<rparr>) = Inr pg
            \<and> length (object_list pg) = 2 \<and> length (object_list pg) \<noteq> 3)"
proof -
  have "get_page_obj post_list POSTS_COUNT (request\<lparr>GET_page := Number 1\<rparr>) =
          Inr \<lparr>object_list = take 10 post_list, number = 1,
               paginator = \<lparr>pg_object_list = post_list, per_page = 10\<rparr>\<rparr>"
    by (rule get_page_obj_12_page1) (simp_all add: assms)
  moreover have "get_page_obj post_list POSTS_COUNT (request\<lparr>GET_page := Number 2\<rparr>) =
          Inr \<lparr>object_list = drop 10 post_list, number = 2,
               paginator = \<lparr>pg_object_list = post_list, per_page = 10\<rparr>\<rparr>"
    by (rule get_page_obj_12_page2) (simp_all add: assms)
  ultimately show ?thesis using assms by simp
qed

theorem get_page_obj_twelve_posts_witness:
  "length (map (\<lambda>i. post1\<lparr>post_id := i\<rparr>) [0..<12]) = 12
   \<and> (\<exists>pg. get_page_obj (map (\<lambda>i. post1\<lparr>post_id := i\<rparr>) [0..<12]) POSTS_COUNT
              (guest_request\<lparr>GET_page := Number 1\<rparr>) = Inr pg
           \<and> length (object_list pg) = 10)
   \<and> (\<exists>pg. get_page_obj (map (\<lambda>i. post1\<lparr>post_id := i\<rparr>) [0..<12]) POSTS_COUNT
              (guest_request\<lparr>GET_page := Number 2\<rparr>) = Inr pg
           \<and> length (object_list pg) = 2 \<and> length (object_list pg) \<noteq> 3)"
  using get_page_obj_twelve_posts [of "map (\<lambda>i. post1\<lparr>post_id := i\<rparr>) [0..<12]" guest_request]
  by simp

text \<open>
  The test \<^verbatim>\<open>test_paginator\<close> creates its 12 posts beside the post of
  \<^verbatim>\<open>setUpClass\<close>: with 13 posts the second page has the 3 items the test expects.
\<close>

lemma get_page_obj_thirteen_posts:
  assumes "length post_list = 13" and "GET_page request = Number 2"
  shows "get_page_obj post_list POSTS_COUNT request =
           Inr \<lparr>object_list = drop 10 post_list, number = 2,
                paginator = \<lparr>pg_object_list = post_list, per_page = 10\<rparr>\<rparr>
         \<and> length (drop 10 post_list) = 3"
  using assms
  by (simp add: get_page_obj_def get_page_def validate_number_def num_pages_def
      page_of_def slice_def count_def orphans_def allow_empty_first_page_def
      POSTS_COUNT_def Let_def)

section \<open>The login decorator\<close>

lemma login_required_anonymous:
  "r_user request = AnonymousUser \<Longrightarrow>
     login_required view_func request s = Inr (Redirect (LoginUrl (full_path request)), s)"
  by (simp add: login_required_def is_authenticated_def redirect_def)

lemma login_required_authenticated:
  "r_user request = Authenticated u \<Longrightarrow> login_required view_func request s = view_func request s"
  by (simp add: login_required_def is_authenticated_def)

text \<open>
  Claim C6. An unauthenticated request to \<^verbatim>\<open>post_create\<close>, \<^verbatim>\<open>post_edit\<close> or
  \<^verbatim>\<open>add_comment\<close> is answered with a redirect to the login URL whose \<^verbatim>\<open>next\<close>
  parameter is the requested path, and leaves the store, and with it the number of posts
  and of comments, unchanged.
\<close>

theorem anonymous_mutation_redirects_to_login:
  assumes "r_user request = AnonymousUser"
  shows "get_response (post_create request) s = (Redirect (LoginUrl (full_path request)), s)
       \<and> get_response (post_edit request pid) s = (Redirect (LoginUrl (full_path request)), s)
       \<and> get_response (add_comment request pid) s = (Redirect (LoginUrl (full_path request)), s)
       \<and> Post_count (snd (get_response (post_create request) s)) = Post_count s
       \<and> Comment_count (snd (get_response (post_create request) s)) = Comment_count s
       \<and> Post_count (snd (get_response (post_edit request pid) s)) = Post_count s
       \<and> Comment_count (snd (get_response (post_edit request pid) s)) = Comment_count s
       \<and> Post_count (snd (get_response (add_comment request pid) s)) = Post_count s
       \<and> Comment_count (snd (get_response (add_comment request pid) s)) = Comment_count s"
proof -
  have c: "post_create request s = Inr (Redirect (LoginUrl (full_path request)), s)"
    unfolding post_create_def using assms by (rule login_required_anonymous)
  have e: "post_edit request pid s = Inr (Redirect (LoginUrl (full_path request)), s)"
    unfolding post_edit_def using assms by (rule login_required_anonymous)
  have a: "add_comment request pid s = Inr (Redirect (LoginUrl (full_path request)), s)"
    unfolding add_comment_def using assms by (rule login_required_anonymous)
  show ?thesis by (simp add: get_response_def c e a)
qed

theorem anonymous_mutation_redirects_to_login_witness:
  "r_user (guest_request\<lparr>r_method := POST, full_path := ''/create/'',
                           r_POST := [(''text'', ''Guest text''), (''group'', '''')]\<rparr>) = AnonymousUser
   \<and> get_response (post_create (guest_request\<lparr>r_method := POST, full_path := ''/create/'',
                           r_POST := [(''text'', ''Guest text''), (''group'', '''')]\<rparr>)) test_store
       = (Redirect (LoginUrl ''/create/''), test_store)
   \<and> Post_count (snd (get_response (post_create (guest_request\<lparr>r_method := POST,
                           full_path := ''/create/'',
                           r_POST := [(''text'', ''Guest text''), (''group'', '''')]\<rparr>)) test_store)) = 3"
  using anonymous_mutation_redirects_to_login
    [of "guest_request\<lparr>r_method := POST, full_path := ''/create/'',
                           r_POST := [(''text'', ''Guest text''), (''group'', '''')]\<rparr>" test_store 1]
  by (simp add: guest_request_def Post_count_def test_store_def)

section \<open>Editing a post as another user\<close>

text \<open>
  Claim C5. When an authenticated user who is not the author of post \<open>p\<close> calls
  \<^verbatim>\<open>post_edit\<close> on it, with any method and any form data, the response is a redirect
  to the detail view of \<open>p\<close> and the store is the one before the request, so \<open>p\<close> is
  still the row it was, its text and every other field unchanged.
\<close>

theorem post_edit_by_non_author:
  assumes "objects_get (posts s) (\<lambda>p. post_id p = pid) = Inr p"
    and "r_user request = Authenticated u"
    and "user_id u \<noteq> p_author p"
  shows "get_response (post_edit request pid) s = (Redirect (PostDetailUrl pid), s)
       \<and> objects_get (posts (snd (get_response (post_edit request pid) s)))
            (\<lambda>p. post_id p = pid) = Inr p"
proof -
  have "post_edit request pid s = Inr (Redirect (PostDetailUrl pid), s)"
    using assms
    by (simp add: post_edit_def login_required_authenticated and_then_def author_is_def
        redirect_def Let_def)
  then show ?thesis using assms(1) by (simp add: get_response_def)
qed

theorem post_edit_by_non_author_witness:
  "objects_get (posts test_store) (\<lambda>p. post_id p = 2) = Inr post2
   \<and> r_user (auth_request\<lparr>r_method := POST, r_POST := [(''text'', ''Edited'')]\<rparr>)
        = Authenticated auth_user
   \<and> user_id auth_user \<noteq> p_author post2
   \<and> get_response (post_edit (auth_request\<lparr>r_method := POST, r_POST := [(''text'', ''Edited'')]\<rparr>) 2)
        test_store = (Redirect (PostDetailUrl 2), test_store)"
proof -
  have 1: "objects_get (posts test_store) (\<lambda>p. post_id p = 2) = Inr post2"
    by (simp add: objects_get_def test_store_def post1_def post2_def post3_def)
  have 2: "r_user (auth_request\<lparr>r_method := POST, r_POST := [(''text'', ''Edited'')]\<rparr>)
        = Authenticated auth_user"
    by (simp add: auth_request_def)
  have 3: "user_id auth_user \<noteq> p_author post2"
    by (simp add: auth_user_def post2_def)
  show ?thesis using post_edit_by_non_author [OF 1 2 3] 1 2 3 by simp
qed

section \<open>Unknown objects\<close>

lemma group_posts_unknown_slug:
  assumes "filter (\<lambda>g. g_slug g = slug) (groups s) = []"
  shows "get_response (group_posts request slug) s = (NotFoundPage, s)"
  using assms
  by (simp add: get_response_def group_posts_def get_object_or_404_def objects_get_def
      and_then_def)

text \<open>
  Claim C3 says that every view answers a request naming an unknown slug, post id or
  username with the 404 page. Only \<^verbatim>\<open>group_posts\<close> does (the lemma above). \<^verbatim>\<open>profile\<close>,
  \<^verbatim>\<open>post_detail\<close>, \<^verbatim>\<open>post_edit\<close> and \<^verbatim>\<open>add_comment\<close> look the object up with
  \<^verbatim>\<open>objects.get\<close>, whose \<^verbatim>\<open>DoesNotExist\<close> nothing catches: the client gets a server
  error. The theorem evaluates the four views at such a request.
\<close>

theorem unknown_object_is_server_error:
  assumes "filter (\<lambda>v. username v = name) (users s) = []"
    and "filter (\<lambda>p. post_id p = pid) (posts s) = []"
    and "r_user r' = Authenticated u"
  shows "get_response (profile r name) s = (ServerErrorPage DoesNotExist, s)
       \<and> get_response (post_detail r pid) s = (ServerErrorPage DoesNotExist, s)
       \<and> get_response (post_edit r' pid) s = (ServerErrorPage DoesNotExist, s)
       \<and> get_response (add_comment r' pid) s = (ServerErrorPage DoesNotExist, s)"
  using assms
  by (simp add: get_response_def profile_def post_detail_def post_edit_def add_comment_def
      login_required_authenticated objects_get_def and_then_def)

theorem unknown_object_is_server_error_witness:
  "filter (\<lambda>v. username v = ''nobody'') (users test_store) = []
   \<and> filter (\<lambda>p. post_id p = 99) (posts test_store) = []
   \<and> r_user auth_request = Authenticated auth_user
   \<and> get_response (profile guest_request ''nobody'') test_store
        = (ServerErrorPage DoesNotExist, test_store)
   \<and> get_response (post_detail guest_request 99) test_store
        = (ServerErrorPage DoesNotExist, test_store)
   \<and> get_response (post_edit auth_request 99) test_store
        = (ServerErrorPage DoesNotExist, test_store)
   \<and> get_response (add_comment auth_request 99) test_store
        = (ServerErrorPage DoesNotExist, test_store)"
proof -
  have 1: "filter (\<lambda>v. username v = ''nobody'') (users test_store) = []"
    by (simp add: test_store_def auth_user_def followed_user_def)
  have 2: "filter (\<lambda>p. post_id p = 99) (posts test_store) = []"
    by (simp add: test_store_def post1_def post2_def post3_def)
  have 3: "r_user auth_request = Authenticated auth_user"
    by (simp add: auth_request_def)
  show ?thesis
    using unknown_object_is_server_error [OF 1 2 3, of guest_request] 1 2 3 by simp
qed

section \<open>The profile page of an anonymous visitor\<close>

lemma test_store_get_followed:
  "objects_get (users test_store) (\<lambda>v. username v = ''followed'') = Inr followed_user"
  by (simp add: objects_get_def test_store_def auth_user_def followed_user_def)

lemma test_store_get_auth:
  "objects_get (users test_store) (\<lambda>v. username v = ''auth'') = Inr auth_user"
  by (simp add: objects_get_def test_store_def auth_user_def followed_user_def)

text \<open>
  Claim C4 says that an unauthenticated \<^verbatim>\<open>GET\<close> of the profile of an existing user
  returns the rendered page with the follow flag false. The view filters the follow rows
  by \<^verbatim>\<open>request.user\<close>, which for an anonymous visitor raises \<^verbatim>\<open>TypeError\<close> while the
  query is built: the view raises and the client gets a server error.
\<close>

theorem profile_anonymous_raises:
  assumes "objects_get (users s) (\<lambda>v. username v = name) = Inr a"
    and "r_user request = AnonymousUser"
  shows "profile request name s = Inl TypeError
       \<and> get_response (profile request name) s = (ServerErrorPage TypeError, s)"
proof -
  obtain pg where "get_page_obj (Post_objects_filter s (\<lambda>p. p_author p = user_id a))
      POSTS_COUNT request = Inr pg"
    using get_page_obj_ok by blast
  then have "profile request name s = Inl TypeError"
    using assms
    by (simp add: profile_def and_then_def Follow_objects_filter_def user_lookup_value_def
        Let_def)
  then show ?thesis by (simp add: get_response_def)
qed

theorem profile_anonymous_raises_witness:
  "objects_get (users test_store) (\<lambda>v. username v = ''auth'') = Inr auth_user
   \<and> r_user guest_request = AnonymousUser
   \<and> profile guest_request ''auth'' test_store = Inl TypeError
   \<and> get_response (profile guest_request ''auth'') test_store
        = (ServerErrorPage TypeError, test_store)"
proof -
  have 2: "r_user guest_request = AnonymousUser" by (simp add: guest_request_def)
  show ?thesis
    using profile_anonymous_raises [OF test_store_get_auth 2] test_store_get_auth 2 by simp
qed

section \<open>Follow and unfollow\<close>

lemma Follow_save_cases:
  "Follow_save s uid aid =
     (if follow_rows s uid aid \<noteq> [] \<or> uid = aid then Inl IntegrityError
      else Inr (s\<lparr>follows := follows s @ [\<lparr>follow_id = follow_seq s, f_user = uid, f_author = aid\<rparr>],
                 follow_seq := Suc (follow_seq s)\<rparr>))"
  by (simp add: Follow_save_def Follow_constraints_def follow_rows_def Let_def)

text \<open>
  Claim C1. For a logged-in user \<open>u\<close> and an existing author \<open>a\<close>, \<^verbatim>\<open>profile_follow\<close>
  fails with the constraint violation (Django's \<^verbatim>\<open>IntegrityError\<close>, the spec's
  \<^verbatim>\<open>ConflictError\<close>), leaving the store as it was, whenever a follow row of \<open>u\<close> on \<open>a\<close>
  exists or \<open>u\<close> is \<open>a\<close>; otherwise it adds exactly one follow row of \<open>u\<close> on \<open>a\<close>
  and redirects to the profile.
\<close>

theorem profile_follow_conflict:
  assumes "r_user request = Authenticated u"
    and "objects_get (users s) (\<lambda>v. username v = name) = Inr a"
  shows "if follow_rows s (user_id u) (user_id a) \<noteq> [] \<or> user_id u = user_id a
         then profile_follow request name s = Inl IntegrityError
            \<and> snd (get_response (profile_follow request name) s) = s
         else profile_follow request name s =
                Inr (Redirect (ProfileUrl name),
                     s\<lparr>follows := follows s @
                          [\<lparr>follow_id = follow_seq s, f_user = user_id u, f_author = user_id a\<rparr>],
                       follow_seq := Suc (follow_seq s)\<rparr>)"
  using assms
  by (simp add: profile_follow_def login_required_authenticated and_then_def
      user_instance_def Follow_save_cases redirect_def get_response_def)

theorem profile_follow_conflict_witness:
  "r_user auth_request = Authenticated auth_user
   \<and> objects_get (users test_store) (\<lambda>v. username v = ''followed'') = Inr followed_user
   \<and> profile_follow auth_request ''followed'' test_store =
        Inr (Redirect (ProfileUrl ''followed''),
             test_store\<lparr>follows := [\<lparr>follow_id = 1, f_user = 1, f_author = 2\<rparr>], follow_seq := 2\<rparr>)
   \<and> profile_follow auth_request ''followed''
        (test_store\<lparr>follows := [\<lparr>follow_id = 1, f_user = 1, f_author = 2\<rparr>], follow_seq := 2\<rparr>)
        = Inl IntegrityError
   \<and> profile_follow auth_request ''auth'' test_store = Inl IntegrityError"
proof -
  have u: "r_user auth_request = Authenticated auth_user"
    by (simp add: auth_request_def)
  let ?s1 = "test_store\<lparr>follows := [\<lparr>follow_id = 1, f_user = 1, f_author = 2\<rparr>], follow_seq := 2\<rparr>"
  have g1: "objects_get (users ?s1) (\<lambda>v. username v = ''followed'') = Inr followed_user"
    using test_store_get_followed by simp
  have a: "profile_follow auth_request ''followed'' test_store = Inr (Redirect (ProfileUrl ''followed''), ?s1)"
    using profile_follow_conflict [OF u test_store_get_followed]
    by (simp add: follow_rows_def test_store_def auth_user_def followed_user_def)
  have b: "profile_follow auth_request ''followed'' ?s1 = Inl IntegrityError"
    using profile_follow_conflict [OF u g1]
    by (simp add: follow_rows_def test_store_def auth_user_def followed_user_def)
  have c: "profile_follow auth_request ''auth'' test_store = Inl IntegrityError"
    using profile_follow_conflict [OF u test_store_get_auth]
    by (simp add: follow_rows_def test_store_def auth_user_def followed_user_def)
  show ?thesis using u test_store_get_followed a b c by simp
qed

lemma follow_rows_Follow_delete:
  "follow_rows (Follow_delete s (follow_rows s uid aid)) uid aid = []"
  by (auto simp: follow_rows_def Follow_delete_def filter_empty_conv)

lemma profile_unfollow_authenticated:
  assumes "r_user request = Authenticated u"
    and "objects_get (users s) (\<lambda>v. username v = name) = Inr a"
  shows "profile_unfollow request name s =
           Inr (Redirect (ProfileUrl name),
                Follow_delete s (follow_rows s (user_id u) (user_id a)))"
  using assms
  by (simp add: profile_unfollow_def login_required_authenticated and_then_def
      Follow_objects_filter_def user_lookup_value_def follow_rows_def redirect_def)

lemma users_get_response_profile_follow:
  "users (snd (get_response (profile_follow request name) s)) = users s"
  by (auto simp: get_response_def profile_follow_def login_required_def and_then_def
      Follow_save_def Let_def redirect_def split: sum.splits exn.splits if_splits)

lemma newest_first_order_by: "newest_first (order_by_neg_pub_date xs)"
proof -
  have "sorted (map (\<lambda>p. - pub_date p) (sort_key (\<lambda>p. - pub_date p) xs))"
    by (rule sorted_sort_key)
  then show ?thesis
    by (simp add: newest_first_def order_by_neg_pub_date_def sorted_map)
qed

lemma newest_first_slice: "newest_first xs \<Longrightarrow> newest_first (slice xs b u)"
  by (simp add: newest_first_def slice_def sorted_wrt_take sorted_wrt_drop)

lemma profile_authenticated:
  assumes "r_user request = Authenticated u"
    and "objects_get (users s) (\<lambda>v. username v = name) = Inr a"
  shows "\<exists>resp. profile request name s = Inr (resp, s)
       \<and> following_flag resp = Some (follow_rows s (user_id u) (user_id a) \<noteq> [])
       \<and> page_of_response resp \<noteq> None
       \<and> newest_first (response_posts resp)"
proof -
  let ?xs = "Post_objects_filter s (\<lambda>p. p_author p = user_id a)"
  obtain b t k where pg: "get_page_obj ?xs POSTS_COUNT request =
      Inr \<lparr>object_list = slice ?xs b t, number = k,
           paginator = \<lparr>pg_object_list = ?xs, per_page = POSTS_COUNT\<rparr>\<rparr>"
    using get_page_obj_ok by blast
  have "newest_first ?xs"
    by (simp add: Post_objects_filter_def Post_Meta_ordering_def newest_first_order_by)
  then have "newest_first (slice ?xs b t)" by (rule newest_first_slice)
  then show ?thesis
    using assms pg
    by (simp add: profile_def and_then_def Follow_objects_filter_def user_lookup_value_def
        render_def following_flag_def follow_rows_def page_of_response_def response_posts_def
        Let_def)
qed

text \<open>
  Claim C7. For a logged-in user \<open>u\<close>, an existing author \<open>a\<close> and any store:
  \<^verbatim>\<open>profile_unfollow\<close> raises nothing and leaves no follow row of \<open>u\<close> on \<open>a\<close>, whether
  or not there was one; the same holds when it runs after \<^verbatim>\<open>profile_follow\<close>, whatever
  that did; and the profile page of \<open>a\<close> shows \<open>u\<close> the flag \<^verbatim>\<open>following\<close> as true
  exactly when a follow row of \<open>u\<close> on \<open>a\<close> is in the store.
\<close>

theorem unfollow_removes_relation:
  assumes "r_user r1 = Authenticated u" and "r_user r2 = Authenticated u"
    and "r_user r3 = Authenticated u"
    and "objects_get (users s) (\<lambda>v. username v = name) = Inr a"
  shows "(\<exists>s'. profile_unfollow r1 name s = Inr (Redirect (ProfileUrl name), s')
              \<and> follow_rows s' (user_id u) (user_id a) = [])
       \<and> (\<exists>s'. profile_unfollow r1 name (snd (get_response (profile_follow r2 name) s))
                  = Inr (Redirect (ProfileUrl name), s')
              \<and> follow_rows s' (user_id u) (user_id a) = [])
       \<and> (\<exists>resp. profile r3 name s = Inr (resp, s)
              \<and> following_flag resp = Some (follow_rows s (user_id u) (user_id a) \<noteq> []))"
proof -
  let ?s1 = "snd (get_response (profile_follow r2 name) s)"
  have a1: "objects_get (users ?s1) (\<lambda>v. username v = name) = Inr a"
    using assms(4) by (simp add: users_get_response_profile_follow)
  have 1: "\<exists>s'. profile_unfollow r1 name s = Inr (Redirect (ProfileUrl name), s')
              \<and> follow_rows s' (user_id u) (user_id a) = []"
    using profile_unfollow_authenticated [OF assms(1) assms(4)]
    by (simp add: follow_rows_Follow_delete)
  have 2: "\<exists>s'. profile_unfollow r1 name ?s1 = Inr (Redirect (ProfileUrl name), s')
              \<and> follow_rows s' (user_id u) (user_id a) = []"
    using profile_unfollow_authenticated [OF assms(1) a1]
    by (simp add: follow_rows_Follow_delete)
  have 3: "\<exists>resp. profile r3 name s = Inr (resp, s)
              \<and> following_flag resp = Some (follow_rows s (user_id u) (user_id a) \<noteq> [])"
    using profile_authenticated [OF assms(3) assms(4)] by blast
  show ?thesis using 1 2 3 by blast
qed

theorem unfollow_removes_relation_witness:
  "r_user auth_request = Authenticated auth_user
   \<and> objects_get (users (test_store\<lparr>follows := [\<lparr>follow_id = 1, f_user = 1, f_author = 2\<rparr>]\<rparr>))
        (\<lambda>v. username v = ''followed'') = Inr followed_user
   \<and> (\<exists>s'. profile_unfollow auth_request ''followed''
               (test_store\<lparr>follows := [\<lparr>follow_id = 1, f_user = 1, f_author = 2\<rparr>]\<rparr>)
             = Inr (Redirect (ProfileUrl ''followed''), s')
           \<and> follow_rows s' (user_id auth_user) (user_id followed_user) = [])
   \<and> (\<exists>resp. profile auth_request ''followed''
               (test_store\<lparr>follows := [\<lparr>follow_id = 1, f_user = 1, f_author = 2\<rparr>]\<rparr>)
             = Inr (resp, test_store\<lparr>follows := [\<lparr>follow_id = 1, f_user = 1, f_author = 2\<rparr>]\<rparr>)
           \<and> following_flag resp = Some True)"
proof -
  let ?s = "test_store\<lparr>follows := [\<lparr>follow_id = 1, f_user = 1, f_author = 2\<rparr>]\<rparr>"
  have u: "r_user auth_request = Authenticated auth_user"
    by (simp add: auth_request_def)
  have a: "objects_get (users ?s) (\<lambda>v. username v = ''followed'') = Inr followed_user"
    using test_store_get_followed by simp
  have f: "follow_rows ?s (user_id auth_user) (user_id followed_user) \<noteq> []"
    by (simp add: follow_rows_def auth_user_def followed_user_def)
  show ?thesis
    using unfollow_removes_relation [OF u u u a] u a f by simp
qed

section \<open>The order of the feeds\<close>

lemma get_page_obj_newest_first:
  assumes "newest_first xs"
  shows "\<exists>pg. get_page_obj xs POSTS_COUNT request = Inr pg \<and> newest_first (object_list pg)"
proof -
  obtain b t k where "get_page_obj xs POSTS_COUNT request =
      Inr \<lparr>object_list = slice xs b t, number = k,
           paginator = \<lparr>pg_object_list = xs, per_page = POSTS_COUNT\<rparr>\<rparr>"
    using get_page_obj_ok by blast
  then show ?thesis using newest_first_slice [OF assms] by simp
qed

lemma newest_first_feed_Rendered:
  "map_of ctx ''page_obj'' = Some (CPage pg) \<Longrightarrow> newest_first (object_list pg) \<Longrightarrow>
     newest_first_feed (Rendered t ctx)"
  by (simp add: newest_first_feed_def page_of_response_def)

lemma Post_Meta_ordering_newest_first: "newest_first (Post_Meta_ordering xs)"
  by (simp add: Post_Meta_ordering_def newest_first_order_by)

lemma cache_get_newest_first:
  assumes "cache_newest_first c" and "cache_get c k t = Some resp"
  shows "newest_first_feed resp"
proof -
  from assms(2) obtain e where "map_of c k = Some (resp, e)"
    by (auto simp: cache_get_def split: option.splits if_splits)
  then have "(k, resp, e) \<in> set c" by (rule map_of_SomeD)
  then show ?thesis using assms(1) by (auto simp: cache_newest_first_def list_all_iff)
qed

lemma cache_set_newest_first:
  assumes "cache_newest_first c" and "newest_first_feed resp"
  shows "cache_newest_first (cache_set c k resp timeout t)"
  using assms by (auto simp: cache_newest_first_def cache_set_def list_all_iff)

lemma cache_page_newest_first:
  assumes v: "\<And>r s. \<exists>resp. view_func r s = Inr (resp, s) \<and> newest_first_feed resp"
    and c: "cache_newest_first c"
  shows "\<exists>resp c'. cache_page timeout key_prefix view_func request (c, s) = Inr (resp, c', s)
           \<and> newest_first_feed resp \<and> cache_newest_first c'"
proof -
  obtain resp where r: "view_func request s = Inr (resp, s)" "newest_first_feed resp"
    using v by blast
  show ?thesis
  proof (cases "r_method request \<notin> {GET, HEAD}")
    case True
    then show ?thesis using r c by (simp add: cache_page_def and_then_def)
  next
    case False
    let ?hit = "case cache_get c (cache_key key_prefix GET request) (now request) of
                     Some resp \<Rightarrow> Some resp
                   | None \<Rightarrow>
                       if r_method request = HEAD
                       then cache_get c (cache_key key_prefix HEAD request) (now request)
                       else None"
    show ?thesis
    proof (cases ?hit)
      case None
      then show ?thesis
        using False r c cache_set_newest_first [OF c r(2)]
        by (simp add: cache_page_def and_then_def Let_def)
    next
      case (Some cached)
      then have "newest_first_feed cached"
        using cache_get_newest_first [OF c]
        by (auto split: option.splits if_splits)
      then show ?thesis
        using False Some c by (simp add: cache_page_def Let_def)
    qed
  qed
qed

text \<open>
  Claim C8. Each of the four feed views returns a page whose posts are ordered by
  \<^verbatim>\<open>pub_date\<close>, newest first: \<^verbatim>\<open>index\<close> for every request (served from a cache that
  holds such pages, it also leaves such a cache), \<^verbatim>\<open>group_posts\<close> whenever the group exists,
  \<^verbatim>\<open>profile\<close> whenever the author exists and the visitor is logged in, and
  \<^verbatim>\<open>follow_index\<close> for every logged-in user.
\<close>

theorem feeds_newest_first:
  "(cache_newest_first c \<longrightarrow>
      (\<exists>resp c'. index r1 (c, s) = Inr (resp, c', s)
          \<and> newest_first_feed resp \<and> cache_newest_first c'))
   \<and> ((\<exists>g. get_object_or_404 (groups s) (\<lambda>g. g_slug g = slug) = Inr g) \<longrightarrow>
      (\<exists>resp. group_posts r2 slug s = Inr (resp, s) \<and> newest_first_feed resp))
   \<and> ((\<exists>a. objects_get (users s) (\<lambda>v. username v = name) = Inr a)
        \<and> is_authenticated (r_user r3) \<longrightarrow>
      (\<exists>resp. profile r3 name s = Inr (resp, s) \<and> newest_first_feed resp))
   \<and> (is_authenticated (r_user r4) \<longrightarrow>
      (\<exists>resp. follow_index r4 s = Inr (resp, s) \<and> newest_first_feed resp))"
proof (intro conjI impI)
  assume "cache_newest_first c"
  moreover have "\<exists>resp. index_body r s' = Inr (resp, s') \<and> newest_first_feed resp" for r s'
    using get_page_obj_newest_first [OF newest_first_order_by, of "Post_objects_all s'" r]
    by (auto simp: index_body_def and_then_def render_def Let_def newest_first_feed_Rendered)
  ultimately show "\<exists>resp c'. index r1 (c, s) = Inr (resp, c', s)
          \<and> newest_first_feed resp \<and> cache_newest_first c'"
    unfolding index_def by (intro cache_page_newest_first) simp_all
next
  assume "\<exists>g. get_object_or_404 (groups s) (\<lambda>g. g_slug g = slug) = Inr g"
  then obtain g where g: "get_object_or_404 (groups s) (\<lambda>g. g_slug g = slug) = Inr g" ..
  show "\<exists>resp. group_posts r2 slug s = Inr (resp, s) \<and> newest_first_feed resp"
    using g get_page_obj_newest_first [OF Post_Meta_ordering_newest_first,
        of "filter (\<lambda>p. p_group p = Some (group_id g)) (posts s)" r2]
    by (auto simp: group_posts_def and_then_def render_def Let_def Post_objects_filter_def
        newest_first_feed_Rendered)
next
  assume "(\<exists>a. objects_get (users s) (\<lambda>v. username v = name) = Inr a)
        \<and> is_authenticated (r_user r3)"
  then obtain a u where a: "objects_get (users s) (\<lambda>v. username v = name) = Inr a"
    and u: "r_user r3 = Authenticated u"
    by (auto simp: is_authenticated_def split: request_user.splits)
  show "\<exists>resp. profile r3 name s = Inr (resp, s) \<and> newest_first_feed resp"
    using a u get_page_obj_newest_first [OF Post_Meta_ordering_newest_first,
        of "filter (\<lambda>p. p_author p = user_id a) (posts s)" r3]
    by (auto simp: profile_def and_then_def render_def Let_def Post_objects_filter_def
        Follow_objects_filter_def user_lookup_value_def newest_first_feed_Rendered)
next
  assume "is_authenticated (r_user r4)"
  then obtain u where u: "r_user r4 = Authenticated u"
    by (auto simp: is_authenticated_def split: request_user.splits)
  show "\<exists>resp. follow_index r4 s = Inr (resp, s) \<and> newest_first_feed resp"
    using u get_page_obj_newest_first [OF Post_Meta_ordering_newest_first,
        of "concat (map (\<lambda>p. map (\<lambda>f. p)
                  (filter (\<lambda>f. f_author f = p_author p \<and> f_user f = user_id u) (follows s)))
                (posts s))" r4]
    by (auto simp: follow_index_def login_required_def is_authenticated_def and_then_def
        render_def Let_def Post_objects_filter_following_def user_lookup_value_def
        newest_first_feed_Rendered)
qed

lemma index_test_store:
  "index guest_request ([], test_store) =
     Inr (Rendered ''posts/index.html''
            [(''title'', CTitle Latest_updates),
             (''page_obj'', CPage \<lparr>object_list = [post2, post3, post1], number = 1,
                 paginator = \<lparr>pg_object_list = [post2, post3, post1], per_page = 10\<rparr>\<rparr>)],
          [((''index_page'', GET, ''/'', []),
            Rendered ''posts/index.html''
            [(''title'', CTitle Latest_updates),
             (''page_obj'', CPage \<lparr>object_list = [post2, post3, post1], number = 1,
                 paginator = \<lparr>pg_object_list = [post2, post3, post1], per_page = 10\<rparr>\<rparr>)],
            1020)],
          test_store)"
  by (simp add: index_def index_body_def cache_page_def guest_request_def cache_get_def cache_key_def
      cache_set_def status_code_def and_then_def render_def get_page_obj_def get_page_def
      validate_number_def num_pages_def page_of_def slice_def count_def orphans_def
      allow_empty_first_page_def POSTS_COUNT_def Post_objects_all_def Post_Meta_ordering_def
      order_by_neg_pub_date_def test_store_def post1_def post2_def post3_def Let_def)

theorem feeds_newest_first_witness:
  "cache_newest_first []
   \<and> (\<exists>g. get_object_or_404 (groups test_store) (\<lambda>g. g_slug g = ''testslug'') = Inr g)
   \<and> (\<exists>a. objects_get (users test_store) (\<lambda>v. username v = ''auth'') = Inr a)
   \<and> is_authenticated (r_user auth_request)
   \<and> (\<exists>resp c'. index guest_request ([], test_store) = Inr (resp, c', test_store)
          \<and> newest_first_feed resp \<and> cache_newest_first c')
   \<and> (\<exists>resp. group_posts guest_request ''testslug'' test_store = Inr (resp, test_store)
          \<and> newest_first_feed resp)
   \<and> (\<exists>resp. profile auth_request ''auth'' test_store = Inr (resp, test_store)
          \<and> newest_first_feed resp)
   \<and> (\<exists>resp. follow_index auth_request test_store = Inr (resp, test_store)
          \<and> newest_first_feed resp)"
proof -
  have c: "cache_newest_first []"
    by (simp add: cache_newest_first_def)
  have g: "\<exists>g. get_object_or_404 (groups test_store) (\<lambda>g. g_slug g = ''testslug'') = Inr g"
    by (simp add: get_object_or_404_def objects_get_def test_store_def test_group_def)
  have a: "\<exists>a. objects_get (users test_store) (\<lambda>v. username v = ''auth'') = Inr a"
    by (simp add: test_store_get_auth)
  have u: "is_authenticated (r_user auth_request)"
    by (simp add: is_authenticated_def auth_request_def)
  show ?thesis
    using feeds_newest_first [of "[]" guest_request test_store "''testslug''" guest_request
        "''auth''" auth_request auth_request] c g a u
    by blast
qed

section \<open>A comment without text\<close>

lemma clean_text_empty: "empty_text request \<Longrightarrow> clean_text (r_POST request) = None"
  by (simp add: empty_text_def clean_text_def Let_def split: option.splits)

lemma test_store_get_post1:
  "objects_get (posts test_store) (\<lambda>p. post_id p = 1) = Inr post1"
  by (simp add: objects_get_def test_store_def post1_def post2_def post3_def)

text \<open>
  Claim C9, as amended. When a logged-in user submits a comment without text to an
  existing post, \<^verbatim>\<open>add_comment\<close> creates no comment and raises nothing; it answers with
  a redirect to the detail view of the post, and that page is rendered with a fresh
  comment form, so no error of the submitted form is shown to the user.
\<close>

theorem empty_comment_redirects:
  assumes "r_user request = Authenticated u"
    and "objects_get (posts s) (\<lambda>p. post_id p = pid) = Inr p"
    and "empty_text request"
  shows "get_response (add_comment request pid) s = (Redirect (PostDetailUrl pid), s)
       \<and> Comment_count (snd (get_response (add_comment request pid) s)) = Comment_count s
       \<and> (\<exists>resp. post_detail r' pid s = Inr (resp, s) \<and> \<not> shows_form_errors resp)"
proof -
  have "\<not> CommentForm_is_valid \<lparr>cf_data = or_None (r_POST request)\<rparr>"
    using clean_text_empty [OF assms(3)]
    by (simp add: CommentForm_is_valid_def or_None_def form_input_def)
  then have "add_comment request pid s = Inr (Redirect (PostDetailUrl pid), s)"
    using assms(1,2)
    by (simp add: add_comment_def login_required_authenticated and_then_def redirect_def Let_def)
  moreover have "\<exists>resp. post_detail r' pid s = Inr (resp, s) \<and> \<not> shows_form_errors resp"
    using assms(2)
    by (simp add: post_detail_def and_then_def render_def shows_form_errors_def Let_def)
  ultimately show ?thesis by (simp add: get_response_def)
qed

theorem empty_comment_redirects_witness:
  "r_user (auth_request\<lparr>r_method := POST, r_POST := [(''text'', '''')]\<rparr>) = Authenticated auth_user
   \<and> objects_get (posts test_store) (\<lambda>p. post_id p = 1) = Inr post1
   \<and> empty_text (auth_request\<lparr>r_method := POST, r_POST := [(''text'', '''')]\<rparr>)
   \<and> get_response (add_comment (auth_request\<lparr>r_method := POST, r_POST := [(''text'', '''')]\<rparr>) 1)
        test_store = (Redirect (PostDetailUrl 1), test_store)"
proof -
  let ?r = "auth_request\<lparr>r_method := POST, r_POST := [(''text'', '''')]\<rparr>"
  have u: "r_user ?r = Authenticated auth_user" by (simp add: auth_request_def)
  have e: "empty_text ?r" by (simp add: empty_text_def QueryDict_get_def strip_def)
  show ?thesis
    using empty_comment_redirects [OF u test_store_get_post1 e] u test_store_get_post1 e
    by simp
qed

text \<open>
  Claim C9 as stated has the failure shown as inline form feedback. At the empty text
  the response of \<^verbatim>\<open>add_comment\<close> is the redirect, not a page with a form that carries
  errors.
\<close>

theorem empty_comment_no_form_feedback:
  "fst (get_response (add_comment (auth_request\<lparr>r_method := POST, r_POST := [(''text'', '''')]\<rparr>) 1)
        test_store) = Redirect (PostDetailUrl 1)
   \<and> \<not> shows_form_errors
        (fst (get_response (add_comment (auth_request\<lparr>r_method := POST,
               r_POST := [(''text'', '''')]\<rparr>) 1) test_store))"
proof -
  have "add_comment (auth_request\<lparr>r_method := POST, r_POST := [(''text'', '''')]\<rparr>) 1 test_store
          = Inr (Redirect (PostDetailUrl 1), test_store)"
    by (simp add: add_comment_def login_required_def is_authenticated_def auth_request_def
        guest_request_def objects_get_def test_store_def post1_def post2_def post3_def
        and_then_def or_None_def CommentForm_is_valid_def
        form_input_def clean_text_def QueryDict_get_def strip_def redirect_def Let_def)
  then show ?thesis by (simp add: get_response_def shows_form_errors_def)
qed

section \<open>The cached site feed\<close>

lemma cache_get_cache_set:
  "cache_get (cache_set c k resp timeout t0) k t =
     (if t0 + timeout \<le> t then None else Some resp)"
  by (simp add: cache_get_def cache_set_def)

lemma cache_page_hit:
  assumes "r_method request = GET"
    and "cache_get c (cache_key key_prefix GET request) (now request) = Some resp"
  shows "cache_page timeout key_prefix view_func request (c, s) = Inr (resp, c, s)"
  using assms by (simp add: cache_page_def Let_def)

lemma cache_page_miss:
  assumes "r_method request = GET"
    and "cache_get c (cache_key key_prefix GET request) (now request) = None"
    and "view_func request s = Inr (resp, s')"
    and "status_code resp = 200" and "timeout \<noteq> 0"
  shows "cache_page timeout key_prefix view_func request (c, s) =
           Inr (resp, cache_set c (cache_key key_prefix GET request) resp timeout (now request), s')"
  using assms by (simp add: cache_page_def and_then_def Let_def)

lemma cache_page_runs_view:
  assumes "view_func request s = Inr (resp, s)"
    and "r_method request \<notin> {GET, HEAD}
         \<or> (cache_get c (cache_key key_prefix GET request) (now request) = None
            \<and> cache_get c (cache_key key_prefix HEAD request) (now request) = None)"
  shows "\<exists>c'. cache_page timeout key_prefix view_func request (c, s) = Inr (resp, c', s)"
  using assms by (auto simp: cache_page_def and_then_def Let_def)

lemma set_slice: "set (slice xs b u) \<subseteq> set xs"
  by (auto simp: slice_def dest: in_set_takeD in_set_dropD)

lemma index_body_fresh:
  "\<exists>resp. index_body r s = Inr (resp, s)
     \<and> status_code resp = 200 \<and> set (response_posts resp) \<subseteq> set (posts s)"
proof -
  let ?xs = "order_by_neg_pub_date (Post_objects_all s)"
  obtain b t k where "get_page_obj ?xs POSTS_COUNT r =
      Inr \<lparr>object_list = slice ?xs b t, number = k,
           paginator = \<lparr>pg_object_list = ?xs, per_page = POSTS_COUNT\<rparr>\<rparr>"
    using get_page_obj_ok by blast
  moreover have "set (slice ?xs b t) \<subseteq> set (posts s)"
    using set_slice [of ?xs b t]
    by (simp add: order_by_neg_pub_date_def Post_objects_all_def Post_Meta_ordering_def)
  ultimately show ?thesis
    by (simp add: index_body_def and_then_def render_def status_code_def response_posts_def
        page_of_response_def Let_def)
qed

lemma Post_delete_absent: "pid \<notin> post_id ` set (posts (Post_delete pid s))"
  by (auto simp: Post_delete_def)

lemma index_fresh_after_delete:
  assumes "r_method r \<notin> {GET, HEAD}
         \<or> (cache_get c (cache_key ''index_page'' GET r) (now r) = None
            \<and> cache_get c (cache_key ''index_page'' HEAD r) (now r) = None)"
  shows "\<exists>resp c'. index r (c, Post_delete pid s) = Inr (resp, c', Post_delete pid s)
           \<and> pid \<notin> post_id ` set (response_posts resp)"
proof -
  obtain resp where resp: "index_body r (Post_delete pid s) = Inr (resp, Post_delete pid s)"
    "set (response_posts resp) \<subseteq> set (posts (Post_delete pid s))"
    using index_body_fresh [of r "Post_delete pid s"] by blast
  obtain c' where "index r (c, Post_delete pid s) = Inr (resp, c', Post_delete pid s)"
    unfolding index_def using cache_page_runs_view [where view_func = index_body, OF resp(1) assms] by blast
  then show ?thesis using resp(2) Post_delete_absent [of pid s] by blast
qed

text \<open>
  Claim C10, as amended. Let a \<^verbatim>\<open>GET\<close> request for the site feed miss the cache, so that
  its page is rendered and cached, and let a post be deleted afterwards. A later
  \<^verbatim>\<open>GET\<close> request for the same URL with the same values of the varied headers, less
  than 20 seconds after the first, gets the cached response again, the deleted post
  included if it was on it. Once the 20 seconds have passed, that request is rendered
  anew and the deleted post is not on the page; and after the cache is cleared, the next
  site feed rendered for any request does not contain the deleted post.
\<close>

theorem cached_index_page_is_stale:
  assumes "r_method r0 = GET" and "r_method r1 = GET"
    and "full_path r1 = full_path r0" and "vary_values r1 = vary_values r0"
    and "cache_get c (cache_key ''index_page'' GET r0) (now r0) = None"
    and "index r0 (c, s) = Inr (resp0, c1, s1)"
  shows "(now r1 < now r0 + 20 \<longrightarrow>
            index r1 (c1, Post_delete pid s1) = Inr (resp0, c1, Post_delete pid s1))
       \<and> (now r0 + 20 \<le> now r1 \<longrightarrow>
            (\<exists>resp c2. index r1 (c1, Post_delete pid s1) = Inr (resp, c2, Post_delete pid s1)
               \<and> pid \<notin> post_id ` set (response_posts resp)))
       \<and> (\<exists>resp c2. index r2 (cache_clear c1, Post_delete pid s1)
                       = Inr (resp, c2, Post_delete pid s1)
               \<and> pid \<notin> post_id ` set (response_posts resp))"
proof -
  let ?k = "cache_key ''index_page'' GET r0"
  have k: "cache_key ''index_page'' GET r1 = ?k"
    using assms(3,4) by (simp add: cache_key_def)
  obtain resp where resp: "index_body r0 s = Inr (resp, s)" "status_code resp = 200"
    using index_body_fresh [of r0 s] by blast
  have "index r0 (c, s) = Inr (resp, cache_set c ?k resp 20 (now r0), s)"
    unfolding index_def
    by (rule cache_page_miss [where view_func = index_body, OF assms(1) assms(5) resp(1) resp(2)]) simp
  then have eq: "resp0 = resp" "c1 = cache_set c ?k resp 20 (now r0)" "s1 = s"
    using assms(6) by simp_all
  have stale: "index r1 (c1, Post_delete pid s1) = Inr (resp0, c1, Post_delete pid s1)"
    if "now r1 < now r0 + 20"
  proof -
    have "cache_get c1 (cache_key ''index_page'' GET r1) (now r1) = Some resp0"
      using that by (simp add: k eq cache_get_cache_set)
    then show ?thesis
      unfolding index_def by (rule cache_page_hit [OF assms(2)])
  qed
  have expired: "\<exists>resp c2. index r1 (c1, Post_delete pid s1) = Inr (resp, c2, Post_delete pid s1)
               \<and> pid \<notin> post_id ` set (response_posts resp)"
    if "now r0 + 20 \<le> now r1"
  proof -
    have g: "cache_get c1 (cache_key ''index_page'' GET r1) (now r1) = None"
      using that by (simp add: k eq cache_get_cache_set)
    obtain resp' where r': "index_body r1 (Post_delete pid s1) = Inr (resp', Post_delete pid s1)"
      "status_code resp' = 200" "set (response_posts resp') \<subseteq> set (posts (Post_delete pid s1))"
      using index_body_fresh [of r1 "Post_delete pid s1"] by blast
    have "index r1 (c1, Post_delete pid s1) =
            Inr (resp', cache_set c1 (cache_key ''index_page'' GET r1) resp' 20 (now r1),
                 Post_delete pid s1)"
      unfolding index_def
      by (rule cache_page_miss [where view_func = index_body, OF assms(2) g r'(1) r'(2)]) simp
    then show ?thesis using r'(3) Post_delete_absent [of pid s1] by blast
  qed
  have cleared: "\<exists>resp c2. index r2 (cache_clear c1, Post_delete pid s1)
                       = Inr (resp, c2, Post_delete pid s1)
               \<and> pid \<notin> post_id ` set (response_posts resp)"
    by (rule index_fresh_after_delete) (simp add: cache_clear_def cache_get_def)
  show ?thesis using stale expired cleared by blast
qed

lemma index_test_store_page:
  "index guest_request ([], test_store) =
     Inr (index_page [post2, post3, post1],
          [((''index_page'', GET, ''/'', []), index_page [post2, post3, post1], 1020)],
          test_store)"
  by (simp add: index_test_store index_page_def)

theorem cached_index_page_is_stale_witness:
  "r_method guest_request = GET
   \<and> r_method (guest_request\<lparr>now := 1005\<rparr>) = GET
   \<and> full_path (guest_request\<lparr>now := 1005\<rparr>) = full_path guest_request
   \<and> vary_values (guest_request\<lparr>now := 1005\<rparr>) = vary_values guest_request
   \<and> cache_get [] (cache_key ''index_page'' GET guest_request) (now guest_request) = None
   \<and> index guest_request ([], test_store) =
        Inr (index_page [post2, post3, post1],
          [((''index_page'', GET, ''/'', []), index_page [post2, post3, post1], 1020)],
          test_store)
   \<and> now (guest_request\<lparr>now := 1005\<rparr>) < now guest_request + 20
   \<and> index (guest_request\<lparr>now := 1005\<rparr>)
        ([((''index_page'', GET, ''/'', []), index_page [post2, post3, post1], 1020)],
         Post_delete 3 test_store) =
        Inr (index_page [post2, post3, post1],
          [((''index_page'', GET, ''/'', []), index_page [post2, post3, post1], 1020)],
          Post_delete 3 test_store)
   \<and> post3 \<in> set (response_posts (index_page [post2, post3, post1]))"
proof -
  let ?r1 = "guest_request\<lparr>now := 1005\<rparr>"
  have 1: "r_method guest_request = GET" by (simp add: guest_request_def)
  have 2: "r_method ?r1 = GET" by (simp add: guest_request_def)
  have 3: "full_path ?r1 = full_path guest_request" by simp
  have 4: "vary_values ?r1 = vary_values guest_request" by simp
  have 5: "cache_get [] (cache_key ''index_page'' GET guest_request) (now guest_request) = None"
    by (simp add: cache_get_def)
  have 6: "now ?r1 < now guest_request + 20" by (simp add: guest_request_def)
  have 7: "post3 \<in> set (response_posts (index_page [post2, post3, post1]))"
    by (simp add: response_posts_def page_of_response_def index_page_def)
  show ?thesis
    using cached_index_page_is_stale [OF 1 2 3 4 5 index_test_store_page, of 3] 1 2 3 4 5 6 7
      index_test_store_page
    by simp
qed

text \<open>
  Claim C10 as stated speaks of any subsequent request. The cache is keyed by the URL:
  after \<^verbatim>\<open>/\<close> is cached and post 3 deleted, a request for \<^verbatim>\<open>/?page=1\<close> five seconds
  later is rendered anew, without the deleted post.
\<close>

theorem cached_page_is_per_url:
  "index guest_request ([], test_store) =
     Inr (index_page [post2, post3, post1],
          [((''index_page'', GET, ''/'', []), index_page [post2, post3, post1], 1020)],
          test_store)
   \<and> post3 \<in> set (response_posts (index_page [post2, post3, post1]))
   \<and> now (guest_request\<lparr>full_path := ''/?page=1'', GET_page := Number 1, now := 1005\<rparr>)
        < now guest_request + 20
   \<and> index (guest_request\<lparr>full_path := ''/?page=1'', GET_page := Number 1, now := 1005\<rparr>)
        ([((''index_page'', GET, ''/'', []), index_page [post2, post3, post1], 1020)],
         Post_delete 3 test_store) =
        Inr (index_page [post2, post1],
          [((''index_page'', GET, ''/?page=1'', []), index_page [post2, post1], 1025),
           ((''index_page'', GET, ''/'', []), index_page [post2, post3, post1], 1020)],
          Post_delete 3 test_store)
   \<and> post3 \<notin> set (response_posts (index_page [post2, post1]))"
proof -
  have "index (guest_request\<lparr>full_path := ''/?page=1'', GET_page := Number 1, now := 1005\<rparr>)
        ([((''index_page'', GET, ''/'', []), index_page [post2, post3, post1], 1020)],
         Post_delete 3 test_store) =
        Inr (index_page [post2, post1],
          [((''index_page'', GET, ''/?page=1'', []), index_page [post2, post1], 1025),
           ((''index_page'', GET, ''/'', []), index_page [post2, post3, post1], 1020)],
          Post_delete 3 test_store)"
    by (simp add: index_def index_body_def cache_page_def guest_request_def cache_get_def
      cache_key_def cache_set_def status_code_def and_then_def render_def get_page_obj_def
      get_page_def validate_number_def num_pages_def page_of_def slice_def count_def
      orphans_def allow_empty_first_page_def POSTS_COUNT_def Post_objects_all_def
      Post_Meta_ordering_def order_by_neg_pub_date_def Post_delete_def test_store_def
      post1_def post2_def post3_def index_page_def Let_def)
  then show ?thesis
    using index_test_store_page
    by (simp add: response_posts_def page_of_response_def index_page_def guest_request_def
        post1_def post2_def post3_def)
qed

section \<open>The tests of the repository on the model\<close>

text \<open>
  The requests of \<^verbatim>\<open>posts/tests\<close> that change the store or read it back, evaluated on
  the fixtures: creating and editing a post, commenting, following and unfollowing, the
  follow feed, and the cached site feed before and after \<^verbatim>\<open>cache.clear()\<close>. Each
  gives what the test asserts.
\<close>

text \<open>The definitions a concrete request is evaluated with.\<close>

lemmas eval_defs =
  objects_get_def get_object_or_404_def and_then_def login_required_def is_authenticated_def
  user_instance_def user_lookup_value_def redirect_def render_def get_response_def
  or_None_def QueryDict_get_def form_input_def clean_text_def clean_group_def clean_image_def
  strip_def is_space_def parse_pk_def is_digit_def
  PostForm_is_bound_def PostForm_is_valid_def PostForm_instance_def CommentForm_is_valid_def
  CommentForm_text_def Post_insert_def Post_update_def Comment_insert_def
  Follow_save_def Follow_constraints_def Follow_delete_def Follow_objects_filter_def
  get_page_obj_def get_page_def validate_number_def num_pages_def page_of_def slice_def
  count_def orphans_def allow_empty_first_page_def POSTS_COUNT_def
  Post_objects_all_def Post_objects_filter_def Post_objects_filter_following_def
  Post_Meta_ordering_def order_by_neg_pub_date_def
  test_store_def auth_user_def followed_user_def test_group_def post1_def post2_def post3_def
  guest_request_def auth_request_def Let_def

lemma replay_test_create_post:
  "get_response (post_create (auth_request\<lparr>r_method := POST, full_path := ''/create/'',
        r_POST := [(''text'', ''Test text''), (''group'', '''')],
        r_FILES := [(''image'', \<lparr>up_name = ''small.gif'', up_is_image = True\<rparr>)]\<rparr>)) test_store
   = (Redirect (ProfileUrl ''auth''),
      test_store\<lparr>posts := posts test_store @
          [\<lparr>post_id = 4, p_text = ''Test text'', pub_date = 1000, p_author = 1,
            p_group = None, p_image = Some ''posts/small.gif''\<rparr>],
        post_seq := 5\<rparr>)"
  by (simp add: post_create_def eval_defs)

lemma replay_test_edit_post:
  "get_response (post_edit (auth_request\<lparr>r_method := POST,
        r_POST := [(''text'', ''Edited text''), (''group'', '''')]\<rparr>) 1) test_store
   = (Redirect (PostDetailUrl 1),
      test_store\<lparr>posts := [post1\<lparr>p_text := ''Edited text'', p_group := None\<rparr>, post2, post3]\<rparr>)"
  by (simp add: post_edit_def author_is_def eval_defs)

lemma replay_test_create_comment:
  "get_response (add_comment (auth_request\<lparr>r_method := POST,
        r_POST := [(''text'', ''Comment321'')]\<rparr>) 1) test_store
   = (Redirect (PostDetailUrl 1),
      test_store\<lparr>comments := [\<lparr>comment_id = 1, c_text = ''Comment321'', c_created = 1000,
                                 c_author = 1, c_post = 1\<rparr>],
        comment_seq := 2\<rparr>)"
  by (simp add: add_comment_def eval_defs)

lemma replay_test_follow:
  "map_sum id (following_flag \<circ> fst)
     (profile auth_request ''followed''
        (snd (get_response (profile_follow auth_request ''followed'') test_store))) = Inr (Some True)
   \<and> map_sum id (following_flag \<circ> fst)
     (profile auth_request ''followed''
        (snd (get_response (profile_unfollow auth_request ''followed'')
           (snd (get_response (profile_follow auth_request ''followed'') test_store)))))
       = Inr (Some False)"
  by (simp add: profile_def profile_follow_def profile_unfollow_def following_flag_def eval_defs)

lemma replay_test_post_appearing:
  "map_sum id (response_posts \<circ> fst)
     (follow_index auth_request
        (snd (get_response (profile_follow auth_request ''followed'') test_store))) = Inr [post2]
   \<and> map_sum id (response_posts \<circ> fst)
     (follow_index (guest_request\<lparr>r_user := Authenticated \<lparr>user_id = 3, username = ''not_following''\<rparr>\<rparr>)
        (snd (get_response (profile_follow auth_request ''followed'') test_store))) = Inr []"
  by (simp add: follow_index_def profile_follow_def response_posts_def page_of_response_def eval_defs)

lemma replay_test_cache_index:
  "map_sum id (response_posts \<circ> fst) (index guest_request ([], test_store))
     = Inr [post2, post3, post1]
   \<and> map_sum id (response_posts \<circ> fst)
       (index (guest_request\<lparr>now := 1005\<rparr>)
          ([((''index_page'', GET, ''/'', []), index_page [post2, post3, post1], 1020)],
           Post_delete 3 test_store))
     = Inr [post2, post3, post1]
   \<and> map_sum id (response_posts \<circ> fst)
       (index (guest_request\<lparr>now := 1005\<rparr>)
          (cache_clear [((''index_page'', GET, ''/'', []), index_page [post2, post3, post1], 1020)],
           Post_delete 3 test_store))
     = Inr [post2, post1]"
  by (simp add: index_def index_body_def cache_page_def cache_get_def cache_key_def
      cache_set_def cache_clear_def status_code_def Post_delete_def response_posts_def
      page_of_response_def index_page_def eval_defs)

end
